theory Spec2Isabelle
  imports Main "HOL-Library.Word"
begin

unbundle bit_operations_syntax

section \<open>Bytes and JavaScript array primitives\<close>

text \<open>
  A \<open>Uint8Array\<close> is a list of 8-bit words. JavaScript strings are kept as
  lists of 8-bit characters: a string stands for its UTF-8 bytes, so that
  \<open>TextEncoder.encode\<close> and \<open>TextDecoder.decode\<close> are the two directions of the
  byte/character correspondence (exact on ASCII and on every well-formed UTF-8 text).
\<close>

type_synonym byte = "8 word"
type_synonym bytes = "byte list"

definition textEncode :: "string \<Rightarrow> bytes" where
  "textEncode s = map (\<lambda>c. of_nat (of_char c)) s"

definition textDecode :: "bytes \<Rightarrow> string" where
  "textDecode b = map (\<lambda>w. char_of (unat w)) b"

text \<open>
  \<open>subarray(b, e)\<close> and \<open>slice(b, e)\<close> with indices that are not negative:
  both clamp to the length.
\<close>

definition subarray :: "'a list \<Rightarrow> nat \<Rightarrow> nat \<Rightarrow> 'a list" where
  "subarray xs b e = take (e - b) (drop b xs)"

text \<open>
  The general form, for a computed index that may be negative: a negative index counts
  from the end of the array and is clamped at 0.
\<close>

definition relIndex :: "nat \<Rightarrow> int \<Rightarrow> nat" where
  "relIndex len i = (if i < 0 then nat (max (int len + i) 0) else min (nat i) len)"

definition sliceRel :: "'a list \<Rightarrow> int \<Rightarrow> int \<Rightarrow> 'a list" where
  "sliceRel xs b e = subarray xs (relIndex (length xs) b) (relIndex (length xs) e)"

text \<open>\<open>DataView.getUint32(0, false)\<close> over the first four bytes of a view.\<close>

definition getUint32 :: "bytes \<Rightarrow> nat" where
  "getUint32 b =
     unat (b ! 0) * 16777216 + unat (b ! 1) * 65536 + unat (b ! 2) * 256 + unat (b ! 3)"

section \<open>Constants\<close>

text \<open>
  Modelled from the spec: the module \<open>domain/constants\<close> is not among the sources; the
  spec lists the observable constants.
\<close>

definition MIN_PADDING :: nat where "MIN_PADDING = 4"
definition AES_BLOCK_SIZE :: nat where "AES_BLOCK_SIZE = 16"
definition HMAC_SHA256_SIZE :: nat where "HMAC_SHA256_SIZE = 32"
definition MAX_PACKET_SIZE :: nat where "MAX_PACKET_SIZE = 35000"

section \<open>Serialization (protocol/serialization.ts)\<close>

text \<open>\<open>setUint32\<close> stores its argument modulo \<open>2^32\<close>, big-endian.\<close>

definition writeUint32 :: "nat \<Rightarrow> bytes" where
  "writeUint32 n =
     [of_nat (n div 16777216), of_nat (n div 65536), of_nat (n div 256), of_nat n]"

definition writeBytes :: "bytes \<Rightarrow> bytes" where
  "writeBytes b = writeUint32 (length b) @ b"

definition writeString :: "string \<Rightarrow> bytes" where
  "writeString s = (let enc = textEncode s in writeUint32 (length enc) @ enc)"

text \<open>
  \<open>n.toString(16)\<close> for a bigint that is not negative: the hexadecimal digits, most
  significant first.
\<close>

function hexDigits :: "nat \<Rightarrow> nat list" where
  "hexDigits n = (if n < 16 then [n] else hexDigits (n div 16) @ [n mod 16])"
  by pat_completeness auto
termination
  by (relation "measure (\<lambda>n. n)") auto

declare hexDigits.simps [simp del]

text \<open>\<open>parseInt(hex.slice(2 i, 2 i + 2), 16)\<close> for every pair of digits.\<close>

fun pairBytes :: "nat list \<Rightarrow> bytes" where
  "pairBytes (h # l # r) = of_nat (16 * h + l) # pairBytes r"
| "pairBytes _ = []"

text \<open>
  \<open>bigintToBytes\<close> is private to the module; its one caller passes a positive value
  (after the negation in \<open>writeBigintMpint\<close>), so the argument is a natural number.
\<close>

definition bigintToBytes :: "nat \<Rightarrow> bytes" where
  "bigintToBytes n =
     (if n = 0 then [0]
      else let hex = hexDigits n;
               hex2 = (if length hex mod 2 \<noteq> 0 then 0 # hex else hex)
           in pairBytes hex2)"

definition writeBigintMpint :: "int \<Rightarrow> bytes" where
  "writeBigintMpint n0 =
     (if n0 = 0 then writeBytes []
      else let neg = (n0 < 0);
               n = (if neg then - n0 else n0);
               bs = bigintToBytes (nat n);
               bs2 = (case bs of
                        [] \<Rightarrow> bs
                      | b # _ \<Rightarrow> if b AND 0x80 \<noteq> 0 then 0 # bs else bs)
           in writeBytes bs2)"

definition writeByteMpint :: "bytes \<Rightarrow> bytes" where
  "writeByteMpint k =
     (case k of
        [] \<Rightarrow> writeBytes k
      | b # _ \<Rightarrow> if b AND 0x80 \<noteq> 0 then writeBytes (0 # k) else writeBytes k)"

section \<open>Packet codec (protocol/codec.ts)\<close>

record ParsedPacket =
  payload :: bytes
  consumed :: nat

definition calculatePadding :: "nat \<Rightarrow> bool \<Rightarrow> nat" where
  "calculatePadding payloadLen etm =
     (if etm then
        (let innerLen = 1 + payloadLen
         in MIN_PADDING + (AES_BLOCK_SIZE - ((innerLen + MIN_PADDING) mod AES_BLOCK_SIZE)) mod AES_BLOCK_SIZE)
      else MIN_PADDING + (AES_BLOCK_SIZE - ((5 + payloadLen + MIN_PADDING) mod AES_BLOCK_SIZE)) mod AES_BLOCK_SIZE)"

text \<open>
  \<open>crypto.getRandomValues\<close> fills the padding; the random source is a tape of bytes
  \<open>rnd\<close>, of which the packet takes the first \<open>padLen\<close>.
\<close>

type_synonym rng = "nat \<Rightarrow> byte"

definition buildPacket :: "rng \<Rightarrow> bytes \<Rightarrow> bool \<Rightarrow> bytes" where
  "buildPacket rnd pl etm =
     (let padLen = calculatePadding (length pl) etm;
          plen = 1 + length pl + padLen
      in writeUint32 plen @ [of_nat padLen] @ pl @ map rnd [0..<padLen])"

definition parsePacket :: "bytes \<Rightarrow> ParsedPacket option" where
  "parsePacket data =
     (if length data < 5 then None
      else let plen = getUint32 (subarray data 0 4);
               total = 4 + plen
           in if length data < total then None
              else let padLen = unat (data ! 4);
                       payloadLen = int plen - 1 - int padLen;
                       pl = sliceRel data 5 (5 + payloadLen)
                   in Some \<lparr>payload = pl, consumed = total\<rparr>)"

section \<open>Algorithm negotiation (kex/kexstate.ts)\<close>

record AlgorithmNegotiation =
  kexAlg :: string
  cipherAlg :: string
  macAlg :: string

definition selectAlgorithm :: "string list \<Rightarrow> string list \<Rightarrow> string option" where
  "selectAlgorithm ourList serverList = find (\<lambda>a. a \<in> set serverList) ourList"

text \<open>
  \<open>!x\<close> on a value of type \<open>string | null\<close>: true for \<open>null\<close> and for the empty
  string.
\<close>

fun falsy :: "string option \<Rightarrow> bool" where
  "falsy None = True"
| "falsy (Some s) = (s = [])"

definition negotiateAlgorithms ::
  "string list \<Rightarrow> string list \<Rightarrow> string list \<Rightarrow> string list \<Rightarrow> string list \<Rightarrow> string list
    \<Rightarrow> AlgorithmNegotiation option" where
  "negotiateAlgorithms preferredKex preferredCipher preferredMac serverKex serverCipher serverMac =
     (let k = selectAlgorithm preferredKex serverKex;
          c = selectAlgorithm preferredCipher serverCipher;
          m = selectAlgorithm preferredMac serverMac
      in if falsy k \<or> falsy c \<or> falsy m then None
         else Some \<lparr>kexAlg = the k, cipherAlg = the c, macAlg = the m\<rparr>)"

section \<open>Cryptographic primitives (crypto/cipher.ts, crypto/mac.ts)\<close>

text \<open>
  The primitives of the Web Crypto API are parameters of the model. AES in counter mode
  turns a key and a 16-byte counter block into a keystream block, which is XOR-ed onto
  the data: \<open>aesKeystream env key counter j\<close> is byte \<open>j\<close> of that block. HMAC-SHA-256
  and SHA-256 are functions on bytes. The key exchange and signature primitives, and the
  constants of \<open>domain/constants\<close> that the spec does not list, are parameters as well.
\<close>

record WebCrypto =
  aesKeystream :: "bytes \<Rightarrow> bytes \<Rightarrow> nat \<Rightarrow> byte"
  hmacSign :: "bytes \<Rightarrow> bytes \<Rightarrow> bytes"
  digestSHA256 :: "bytes \<Rightarrow> bytes"
  x25519Generate :: "rng \<Rightarrow> bytes \<times> bytes"
  x25519DeriveBits :: "bytes \<Rightarrow> bytes \<Rightarrow> bytes"
  ed25519SignRaw :: "bytes \<Rightarrow> bytes \<Rightarrow> bytes"
  dhGenerate :: "rng \<Rightarrow> (int \<times> int) \<times> rng"
  DH_PRIME :: int
  CLIENT_IDENT :: string

text \<open>
  \<open>incrementCounter\<close> adds \<open>count\<close> into the bytes at indices 15 down to 0. The
  helper works on the reversed block, least significant byte first. On an array shorter
  than 16 bytes the first read is out of range, the carry becomes 0 and nothing changes.
\<close>

fun incBytes :: "bytes \<Rightarrow> nat \<Rightarrow> bytes" where
  "incBytes [] carry = []"
| "incBytes (b # bs) carry =
     (if carry > 0
      then (let sum = unat b + carry in of_nat (sum mod 256) # incBytes bs (sum div 256))
      else b # bs)"

definition incrementCounter :: "bytes \<Rightarrow> nat \<Rightarrow> bytes" where
  "incrementCounter iv count =
     (if length iv < 16 then iv
      else rev (incBytes (rev (take 16 iv)) count) @ drop 16 iv)"

text \<open>
  One call of \<open>crypto.subtle.encrypt\<close> (or \<open>decrypt\<close>) with \<open>AES-CTR\<close> on at most
  one block: the data XOR the keystream of the counter block.
\<close>

definition ctrBlock :: "WebCrypto \<Rightarrow> bytes \<Rightarrow> bytes \<Rightarrow> bytes \<Rightarrow> bytes" where
  "ctrBlock env key counter blk =
     map (\<lambda>j. (blk ! j) XOR aesKeystream env key counter j) [0..<length blk]"

text \<open>The block loop shared by \<open>encryptAES128CTR\<close> and \<open>decryptAES128CTR\<close>.\<close>

function ctrLoop :: "WebCrypto \<Rightarrow> bytes \<Rightarrow> bytes \<Rightarrow> bytes \<Rightarrow> bytes \<times> bytes" where
  "ctrLoop env key ivCopy dat =
     (if dat = [] then ([], ivCopy)
      else (let blk = take 16 dat;
                out = ctrBlock env key ivCopy blk;
                r = ctrLoop env key (incrementCounter ivCopy 1) (drop 16 dat)
            in (out @ fst r, snd r)))"
  by pat_completeness auto
termination
  by (relation "measure (\<lambda>(env, key, ivCopy, dat). length dat)") auto

declare ctrLoop.simps [simp del]

definition encryptAES128CTR :: "WebCrypto \<Rightarrow> bytes \<Rightarrow> bytes \<Rightarrow> bytes \<Rightarrow> bytes \<times> bytes" where
  "encryptAES128CTR env key iv plaintext = ctrLoop env key iv plaintext"

definition decryptAES128CTR :: "WebCrypto \<Rightarrow> bytes \<Rightarrow> bytes \<Rightarrow> bytes \<Rightarrow> bytes \<times> bytes" where
  "decryptAES128CTR env key iv ciphertext = ctrLoop env key iv ciphertext"

definition computeHMACSHA256 :: "WebCrypto \<Rightarrow> bytes \<Rightarrow> bytes \<Rightarrow> bytes" where
  "computeHMACSHA256 env key data = hmacSign env key data"

definition constantTimeEqual :: "bytes \<Rightarrow> bytes \<Rightarrow> bool" where
  "constantTimeEqual a b =
     (if length a \<noteq> length b then False
      else fold (\<lambda>(x, y) diff. diff OR (x XOR y)) (zip a b) 0 = 0)"

section \<open>Number formatting in messages\<close>

function decDigits :: "nat \<Rightarrow> nat list" where
  "decDigits n = (if n < 10 then [n] else decDigits (n div 10) @ [n mod 10])"
  by pat_completeness auto
termination
  by (relation "measure (\<lambda>n. n)") auto

declare decDigits.simps [simp del]

definition showNat :: "nat \<Rightarrow> string" where
  "showNat n = map (\<lambda>d. ''0123456789'' ! d) (decDigits n)"

definition showInt :: "int \<Rightarrow> string" where
  "showInt i = (if i < 0 then CHR ''-'' # showNat (nat (- i)) else showNat (nat i))"

section \<open>Transport cipher (transport/transportcipher.ts)\<close>

datatype SSHError = MacVerificationError string | ProtocolError string

text \<open>
  A \<open>CryptoKey\<close> imported from raw bytes is represented by those bytes. The sequence
  numbers are JavaScript numbers: they are incremented without wrapping, and
  \<open>writeUint32\<close> reduces them modulo \<open>2^32\<close> where they enter the MAC.
\<close>

record TransportCipher =
  ivEnc :: bytes
  ivDec :: bytes
  keyEnc :: bytes
  keyDec :: bytes
  seqOut :: nat
  seqIn :: nat
  macEtm :: bool
  macC :: bytes
  macS :: bytes

record EncryptResult =
  ciphertext :: bytes

text \<open>
  The payload of a decrypted packet is a view (\<open>subarray\<close>) into the buffer of the
  decrypted packet; \<open>bufferTail\<close> records the bytes of that buffer behind the payload,
  which a \<open>DataView\<close> built on \<open>payload.buffer\<close> can reach.
\<close>

record DecryptResult = ParsedPacket +
  bufferTail :: bytes

definition encrypt ::
  "WebCrypto \<Rightarrow> rng \<Rightarrow> TransportCipher \<Rightarrow> bytes \<Rightarrow> EncryptResult \<times> TransportCipher" where
  "encrypt env rnd c pl =
     (let raw = buildPacket rnd pl (macEtm c);
          seq = seqOut c;
          c1 = c\<lparr>seqOut := seqOut c + 1\<rparr>
      in if macEtm c1 then
           (let packetLen = subarray raw 0 4;
                r = encryptAES128CTR env (keyEnc c1) (ivEnc c1) (drop 4 raw);
                c2 = c1\<lparr>ivEnc := snd r\<rparr>;
                macInput = writeUint32 seq @ packetLen @ fst r;
                mac = computeHMACSHA256 env (macC c2) macInput
            in (\<lparr>ciphertext = packetLen @ fst r @ mac\<rparr>, c2))
         else
           (let r = encryptAES128CTR env (keyEnc c1) (ivEnc c1) raw;
                c2 = c1\<lparr>ivEnc := snd r\<rparr>;
                macInput = writeUint32 seq @ raw;
                mac = computeHMACSHA256 env (macC c2) macInput
            in (\<lparr>ciphertext = fst r @ mac\<rparr>, c2)))"

text \<open>
  A decrypt call returns its outcome together with the cipher state it leaves behind:
  \<open>Inl\<close> an error thrown, \<open>Inr None\<close> the value \<open>null\<close> (more bytes needed),
  \<open>Inr (Some r)\<close> a decrypted packet.
\<close>

type_synonym DecryptOutcome = "(SSHError + DecryptResult option) \<times> TransportCipher"

definition decryptEtm :: "WebCrypto \<Rightarrow> TransportCipher \<Rightarrow> bytes \<Rightarrow> DecryptOutcome" where
  "decryptEtm env c data =
     (if length data < 4 + HMAC_SHA256_SIZE then (Inr None, c)
      else let plen = getUint32 (subarray data 0 4) in
        if plen < 5 \<or> plen > MAX_PACKET_SIZE then (Inr None, c)
        else let totalLen = 4 + plen + HMAC_SHA256_SIZE in
          if length data < totalLen then (Inr None, c)
          else let packetLen = subarray data 0 4;
                   ct = subarray data 4 (4 + plen);
                   macReceived = subarray data (4 + plen) (4 + plen + HMAC_SHA256_SIZE);
                   macInput = writeUint32 (seqIn c) @ packetLen @ ct;
                   macExpected = computeHMACSHA256 env (macS c) macInput
               in if \<not> constantTimeEqual macReceived macExpected
                  then (Inl (MacVerificationError ''MAC verification failed (EtM mode)''), c)
                  else let r = decryptAES128CTR env (keyDec c) (ivDec c) ct;
                           fullRawInner = fst r;
                           nextIv = snd r;
                           padLen = unat (fullRawInner ! 0)
                       in if padLen < 4 \<or> padLen > 255
                          then (Inl (ProtocolError (''Invalid padding length: '' @ showNat padLen
                                  @ '' (seq='' @ showNat (seqIn c) @ '')'')), c)
                          else if padLen > plen - 1
                          then (Inl (ProtocolError (''Padding exceeds packet length (seq=''
                                  @ showNat (seqIn c) @ '')'')), c)
                          else let payloadLen = int plen - 1 - int padLen in
                            if payloadLen < 0 \<or> 1 + payloadLen > int (length fullRawInner)
                            then (Inl (ProtocolError (''Invalid payload length: ''
                                    @ showInt payloadLen @ '' (seq='' @ showNat (seqIn c) @ '')'')), c)
                            else (Inr (Some \<lparr>payload = subarray fullRawInner 1 (1 + nat payloadLen),
                                             consumed = totalLen,
                                             bufferTail = drop (1 + nat payloadLen) fullRawInner\<rparr>),
                                  c\<lparr>ivDec := nextIv, seqIn := seqIn c + 1\<rparr>))"

definition decryptStandard :: "WebCrypto \<Rightarrow> TransportCipher \<Rightarrow> bytes \<Rightarrow> DecryptOutcome" where
  "decryptStandard env c data =
     (if length data < AES_BLOCK_SIZE + HMAC_SHA256_SIZE then (Inr None, c)
      else let firstBlock = subarray data 0 AES_BLOCK_SIZE;
               r1 = decryptAES128CTR env (keyDec c) (ivDec c) firstBlock;
               first = fst r1;
               ivAfterFirst = snd r1;
               plen = getUint32 (subarray first 0 4)
           in if plen < 5 \<or> plen > MAX_PACKET_SIZE then (Inr None, c)
              else let totalEnc = 4 + plen in
                if length data < totalEnc + HMAC_SHA256_SIZE then (Inr None, c)
                else let macReceived = subarray data totalEnc (totalEnc + HMAC_SHA256_SIZE);
                         r2 = (if totalEnc \<le> AES_BLOCK_SIZE
                               then (subarray first 0 totalEnc, ivAfterFirst)
                               else (let r = decryptAES128CTR env (keyDec c) ivAfterFirst
                                               (subarray data AES_BLOCK_SIZE totalEnc)
                                     in (first @ fst r, snd r)));
                         fullRaw = fst r2;
                         ivAfterDecrypt = snd r2;
                         padLen = unat (fullRaw ! 4)
                     in if padLen < 4 \<or> padLen > 255
                        then (Inl (ProtocolError (''Invalid padding length: '' @ showNat padLen
                                @ '' (seq='' @ showNat (seqIn c) @ '')'')), c)
                        else let payloadLen = int plen - 1 - int padLen in
                          if payloadLen < 0 \<or> 5 + payloadLen > int (length fullRaw)
                          then (Inl (ProtocolError (''Invalid payload length: ''
                                  @ showInt payloadLen @ '' (seq='' @ showNat (seqIn c) @ '')'')), c)
                          else let macInput = writeUint32 (seqIn c) @ fullRaw;
                                   macExpected = computeHMACSHA256 env (macS c) macInput
                               in if \<not> constantTimeEqual macReceived macExpected
                                  then (Inl (MacVerificationError ''MAC verification failed''), c)
                                  else (Inr (Some \<lparr>payload = subarray fullRaw 5 (5 + nat payloadLen),
                                                   consumed = totalEnc + HMAC_SHA256_SIZE,
                                                   bufferTail =
                                                     (if totalEnc \<le> AES_BLOCK_SIZE
                                                      then drop (5 + nat payloadLen) first
                                                      else drop (5 + nat payloadLen) fullRaw)\<rparr>),
                                        c\<lparr>seqIn := seqIn c + 1, ivDec := ivAfterDecrypt\<rparr>))"

definition decrypt :: "WebCrypto \<Rightarrow> TransportCipher \<Rightarrow> bytes \<Rightarrow> DecryptOutcome" where
  "decrypt env c data = (if macEtm c then decryptEtm env c data else decryptStandard env c data)"

definition createTransportCipher ::
  "bytes \<Rightarrow> bytes \<Rightarrow> bytes \<Rightarrow> bytes \<Rightarrow> bytes \<Rightarrow> bytes \<Rightarrow> nat \<Rightarrow> nat \<Rightarrow> bool \<Rightarrow> TransportCipher" where
  "createTransportCipher ivC0 keyC0 macC0 ivS0 keyS0 macS0 initialSeqOut initialSeqIn etm =
     \<lparr>ivEnc = ivC0, ivDec = ivS0, keyEnc = keyC0, keyDec = keyS0,
      seqOut = initialSeqOut, seqIn = initialSeqIn, macEtm = etm,
      macC = macC0, macS = macS0\<rparr>"


section \<open>Vocabulary for the claims about the transport cipher\<close>

text \<open>
  The quantities a decrypt call computes on its way, named so that the theorems can
  speak about them: the \<open>packet_length\<close> field it reads (in the clear in ETM mode, from
  the decrypted first block otherwise), the plaintext packet, the MAC found behind the
  packet, the MAC the receiver computes and the padding length field.
\<close>

definition packetLengthField :: "WebCrypto \<Rightarrow> TransportCipher \<Rightarrow> bytes \<Rightarrow> nat" where
  "packetLengthField env c data =
     (if macEtm c then getUint32 (subarray data 0 4)
      else getUint32 (subarray
             (fst (decryptAES128CTR env (keyDec c) (ivDec c) (subarray data 0 AES_BLOCK_SIZE))) 0 4))"

definition bufferTooShort :: "WebCrypto \<Rightarrow> TransportCipher \<Rightarrow> bytes \<Rightarrow> bool" where
  "bufferTooShort env c data =
     (length data < (if macEtm c then 4 else AES_BLOCK_SIZE) + HMAC_SHA256_SIZE
      \<or> length data < 4 + packetLengthField env c data + HMAC_SHA256_SIZE)"

definition decryptedPacket :: "WebCrypto \<Rightarrow> TransportCipher \<Rightarrow> bytes \<Rightarrow> bytes" where
  "decryptedPacket env c data =
     (let plen = packetLengthField env c data in
      if macEtm c
      then subarray data 0 4 @ fst (decryptAES128CTR env (keyDec c) (ivDec c) (subarray data 4 (4 + plen)))
      else (let r1 = decryptAES128CTR env (keyDec c) (ivDec c) (subarray data 0 AES_BLOCK_SIZE)
            in if 4 + plen \<le> AES_BLOCK_SIZE then subarray (fst r1) 0 (4 + plen)
               else fst r1 @ fst (decryptAES128CTR env (keyDec c) (snd r1)
                                    (subarray data AES_BLOCK_SIZE (4 + plen)))))"

definition receivedMac :: "WebCrypto \<Rightarrow> TransportCipher \<Rightarrow> bytes \<Rightarrow> bytes" where
  "receivedMac env c data =
     (let plen = packetLengthField env c data
      in subarray data (4 + plen) (4 + plen + HMAC_SHA256_SIZE))"

definition expectedMac :: "WebCrypto \<Rightarrow> TransportCipher \<Rightarrow> bytes \<Rightarrow> bytes" where
  "expectedMac env c data =
     computeHMACSHA256 env (macS c)
       (writeUint32 (seqIn c) @
          (if macEtm c
           then subarray data 0 4 @ subarray data 4 (4 + packetLengthField env c data)
           else decryptedPacket env c data))"

definition paddingLengthField :: "WebCrypto \<Rightarrow> TransportCipher \<Rightarrow> bytes \<Rightarrow> nat" where
  "paddingLengthField env c data = unat (decryptedPacket env c data ! 4)"

text \<open>Flipping bit \<open>i\<close> of a byte string (bit \<open>i mod 8\<close> of byte \<open>i div 8\<close>).\<close>

definition flipBit :: "bytes \<Rightarrow> nat \<Rightarrow> bytes" where
  "flipBit data i = data[i div 8 := (data ! (i div 8)) XOR push_bit (i mod 8) 1]"

text \<open>
  Two ciphers are mirror-configured when the outbound key, IV, MAC key and sequence
  number of the sender are the inbound ones of the receiver, in the same MAC mode.
\<close>

definition mirror :: "TransportCipher \<Rightarrow> TransportCipher \<Rightarrow> bool" where
  "mirror snd_c rcv_c =
     (keyDec rcv_c = keyEnc snd_c \<and> ivDec rcv_c = ivEnc snd_c \<and> macS rcv_c = macC snd_c
      \<and> seqIn rcv_c = seqOut snd_c \<and> macEtm rcv_c = macEtm snd_c)"


section \<open>Deserialization (protocol/deserialization.ts)\<close>

text \<open>
  The readers return \<open>null\<close> on truncation. A result \<open>{value, consumed}\<close> is the pair
  of the value and the number of bytes read.
\<close>

definition readString :: "bytes \<Rightarrow> nat \<Rightarrow> (string \<times> nat) option" where
  "readString data offset =
     (if offset + 4 > length data then None
      else let len = getUint32 (subarray data offset (offset + 4)) in
        if offset + 4 + len > length data then None
        else Some (textDecode (subarray data (offset + 4) (offset + 4 + len)), 4 + len))"

definition readBytes :: "bytes \<Rightarrow> nat \<Rightarrow> (bytes \<times> nat) option" where
  "readBytes data offset =
     (if offset + 4 > length data then None
      else let len = getUint32 (subarray data offset (offset + 4)) in
        if offset + 4 + len > length data then None
        else Some (subarray data (offset + 4) (offset + 4 + len), 4 + len))"

definition readMpint :: "bytes \<Rightarrow> nat \<Rightarrow> (int \<times> nat) option" where
  "readMpint data offset =
     (case readBytes data offset of
        None \<Rightarrow> None
      | Some (b, used) \<Rightarrow>
          (let n = fold (\<lambda>x acc. acc * 256 + uint x) b 0;
               n2 = (case b of
                       [] \<Rightarrow> n
                     | b0 # _ \<Rightarrow> if b0 AND 0x80 \<noteq> 0 then n - 2 ^ (length b * 8) else n)
           in Some (n2, used)))"

section \<open>Modular arithmetic (crypto/arithmetic.ts, crypto/keyexchange.ts)\<close>

text \<open>
  BigInt \<open>%\<close> and \<open>/\<close> truncate towards zero. The modulus passed to \<open>modPow\<close> is the
  group prime, which is not zero (BigInt division by zero would throw).
\<close>

definition jsRem :: "int \<Rightarrow> int \<Rightarrow> int" where
  "jsRem a b = sgn a * (\<bar>a\<bar> mod \<bar>b\<bar>)"

definition jsDiv :: "int \<Rightarrow> int \<Rightarrow> int" where
  "jsDiv a b = sgn a * sgn b * (\<bar>a\<bar> div \<bar>b\<bar>)"

function modPowLoop :: "int \<Rightarrow> int \<Rightarrow> int \<Rightarrow> int \<Rightarrow> int" where
  "modPowLoop result base ex md =
     (if ex > 0
      then modPowLoop (if jsRem ex 2 = 1 then jsRem (result * base) md else result)
             (jsRem (base * base) md) (jsDiv ex 2) md
      else result)"
  by pat_completeness auto
termination
  by (relation "measure (\<lambda>(result, base, ex, md). nat ex)") (auto simp add: jsDiv_def)

declare modPowLoop.simps [simp del]

definition modPow :: "int \<Rightarrow> int \<Rightarrow> int \<Rightarrow> int" where
  "modPow base ex md = modPowLoop 1 (jsRem base md) ex md"

definition computeDHSharedSecret :: "WebCrypto \<Rightarrow> int \<Rightarrow> int \<Rightarrow> int" where
  "computeDHSharedSecret env f x = modPow f x (DH_PRIME env)"

definition computeSHA256 :: "WebCrypto \<Rightarrow> bytes \<Rightarrow> bytes" where
  "computeSHA256 env data = digestSHA256 env data"

section \<open>Key derivation (crypto/keys.ts)\<close>

record DerivedKeys =
  ivC :: bytes
  keyC :: bytes
  dkMacC :: bytes
  ivS :: bytes
  keyS :: bytes
  dkMacS :: bytes

definition deriveKeys :: "WebCrypto \<Rightarrow> bytes \<Rightarrow> bytes \<Rightarrow> bytes \<Rightarrow> DerivedKeys" where
  "deriveKeys env sharedSecret exchangeHash sid =
     (let deriveKey = (\<lambda>ident. computeSHA256 env (sharedSecret @ exchangeHash @ [ident] @ sid))
      in \<lparr>ivC = subarray (deriveKey 0x41) 0 16,
          keyC = subarray (deriveKey 0x43) 0 16,
          dkMacC = subarray (deriveKey 0x45) 0 32,
          ivS = subarray (deriveKey 0x42) 0 16,
          keyS = subarray (deriveKey 0x44) 0 16,
          dkMacS = subarray (deriveKey 0x46) 0 32\<rparr>)"

section \<open>Protocol constants and string helpers\<close>

text \<open>
  Modelled from the spec: the message numbers, the preferred algorithm lists and the
  terminal defaults of \<open>domain/constants\<close> (the numbers are also the keys of the table in
  \<open>protocol/messages.ts\<close>).
\<close>

definition SSH_MSG_KEXINIT :: nat where "SSH_MSG_KEXINIT = 20"
definition SSH_MSG_NEWKEYS :: nat where "SSH_MSG_NEWKEYS = 21"
definition SSH_MSG_KEXDH_INIT :: nat where "SSH_MSG_KEXDH_INIT = 30"
definition SSH_MSG_KEX_ECDH_INIT :: nat where "SSH_MSG_KEX_ECDH_INIT = 30"
definition SSH_MSG_KEXDH_REPLY :: nat where "SSH_MSG_KEXDH_REPLY = 31"
definition SSH_MSG_KEX_ECDH_REPLY :: nat where "SSH_MSG_KEX_ECDH_REPLY = 31"
definition SSH_MSG_SERVICE_REQUEST :: nat where "SSH_MSG_SERVICE_REQUEST = 5"
definition SSH_MSG_SERVICE_ACCEPT :: nat where "SSH_MSG_SERVICE_ACCEPT = 6"
definition SSH_MSG_EXT_INFO :: nat where "SSH_MSG_EXT_INFO = 7"
definition SSH_MSG_USERAUTH_REQUEST :: nat where "SSH_MSG_USERAUTH_REQUEST = 50"
definition SSH_MSG_USERAUTH_FAILURE :: nat where "SSH_MSG_USERAUTH_FAILURE = 51"
definition SSH_MSG_USERAUTH_SUCCESS :: nat where "SSH_MSG_USERAUTH_SUCCESS = 52"
definition SSH_MSG_USERAUTH_PK_OK :: nat where "SSH_MSG_USERAUTH_PK_OK = 60"
definition SSH_MSG_GLOBAL_REQUEST :: nat where "SSH_MSG_GLOBAL_REQUEST = 80"
definition SSH_MSG_REQUEST_SUCCESS :: nat where "SSH_MSG_REQUEST_SUCCESS = 81"
definition SSH_MSG_REQUEST_FAILURE :: nat where "SSH_MSG_REQUEST_FAILURE = 82"
definition SSH_MSG_CHANNEL_OPEN :: nat where "SSH_MSG_CHANNEL_OPEN = 90"
definition SSH_MSG_CHANNEL_OPEN_CONFIRMATION :: nat where "SSH_MSG_CHANNEL_OPEN_CONFIRMATION = 91"
definition SSH_MSG_CHANNEL_WINDOW_ADJUST :: nat where "SSH_MSG_CHANNEL_WINDOW_ADJUST = 93"
definition SSH_MSG_CHANNEL_DATA :: nat where "SSH_MSG_CHANNEL_DATA = 94"
definition SSH_MSG_CHANNEL_EXTENDED_DATA :: nat where "SSH_MSG_CHANNEL_EXTENDED_DATA = 95"
definition SSH_MSG_CHANNEL_REQUEST :: nat where "SSH_MSG_CHANNEL_REQUEST = 98"
definition SSH_MSG_CHANNEL_SUCCESS :: nat where "SSH_MSG_CHANNEL_SUCCESS = 99"
definition SSH_MSG_CHANNEL_FAILURE :: nat where "SSH_MSG_CHANNEL_FAILURE = 100"

definition PREFERRED_KEX :: string where
  "PREFERRED_KEX = ''curve25519-sha256,curve25519-sha256@libssh.org,diffie-hellman-group14-sha256''"
definition PREFERRED_CIPHER :: string where "PREFERRED_CIPHER = ''aes128-ctr''"
definition PREFERRED_MAC :: string where
  "PREFERRED_MAC = ''hmac-sha2-256-etm@openssh.com,hmac-sha2-256''"
definition DEFAULT_TERMINAL_COLS :: nat where "DEFAULT_TERMINAL_COLS = 80"
definition DEFAULT_TERMINAL_ROWS :: nat where "DEFAULT_TERMINAL_ROWS = 24"
definition DEFAULT_TERMINAL_TYPE :: string where "DEFAULT_TERMINAL_TYPE = ''xterm-256color''"
definition DEFAULT_WINDOW_SIZE :: nat where "DEFAULT_WINDOW_SIZE = 32768"

text \<open>\<open>s.split(c)\<close>, \<open>s.trim()\<close> (ASCII white space), \<open>xs.join(sep)\<close>, \<open>s.startsWith(t)\<close>.\<close>

fun splitOn :: "char \<Rightarrow> string \<Rightarrow> string list" where
  "splitOn c [] = [[]]"
| "splitOn c (x # xs) =
     (if x = c then [] # splitOn c xs
      else (case splitOn c xs of [] \<Rightarrow> [[x]] | h # t \<Rightarrow> (x # h) # t))"

definition isSpace :: "char \<Rightarrow> bool" where
  "isSpace c = (c \<in> set [CHR 0x09, CHR 0x0A, CHR 0x0B, CHR 0x0C, CHR 0x0D, CHR 0x20])"

definition trim :: "string \<Rightarrow> string" where
  "trim s = rev (dropWhile isSpace (rev (dropWhile isSpace s)))"

fun joinWith :: "string \<Rightarrow> string list \<Rightarrow> string" where
  "joinWith sep [] = []"
| "joinWith sep [x] = x"
| "joinWith sep (x # y # r) = x @ sep @ joinWith sep (y # r)"

definition startsWith :: "string \<Rightarrow> string \<Rightarrow> bool" where
  "startsWith s t = (take (length t) s = t)"

text \<open>\<open>s.split(",").map((x) => x.trim()).filter(Boolean)\<close>\<close>

definition splitList :: "string \<Rightarrow> string list" where
  "splitList s = filter (\<lambda>x. x \<noteq> []) (map trim (splitOn CHR '','' s))"

text \<open>\<open>s.replace(/\r?\n$/, "")\<close>: a final line feed, with a carriage return before it, is cut.\<close>

definition stripFinalNewline :: "string \<Rightarrow> string" where
  "stripFinalNewline s =
     (case rev s of
        a # b # r \<Rightarrow> if a = CHR 0x0A then (if b = CHR 0x0D then rev r else rev (b # r)) else s
      | [a] \<Rightarrow> if a = CHR 0x0A then [] else s
      | [] \<Rightarrow> s)"

text \<open>\<open>xs.findIndex(pred)\<close> with a predicate on the index; \<open>None\<close> stands for \<open>-1\<close>.\<close>

definition findIndex :: "(nat \<Rightarrow> bool) \<Rightarrow> nat \<Rightarrow> nat option" where
  "findIndex P len = find P [0..<len]"

section \<open>KEXINIT builder (kex/builder.ts)\<close>

definition buildKexInit :: "rng \<Rightarrow> bytes" where
  "buildKexInit rnd =
     (let cookie = map rnd [0..<16];
          macList = splitList PREFERRED_MAC;
          lists = [PREFERRED_KEX, ''ssh-ed25519'', PREFERRED_CIPHER, PREFERRED_CIPHER,
                   joinWith '','' macList, joinWith '','' macList, ''none'', ''none'', '''', '''']
      in [of_nat SSH_MSG_KEXINIT] @ cookie @ concat (map writeString lists) @ [0] @ writeUint32 0)"

section \<open>Connection state (connection/connectionstate.ts)\<close>

datatype ConnectionPhase =
  PhaseIdentExchange | PhaseKex | PhaseAuth | PhaseChannelOpen | PhaseActive | PhaseClosed
  | PhaseError

datatype KexPhase = KexInit | KexNegotiating | KexExchanging | KexComplete

datatype AuthPhase =
  AuthInit | AuthServiceRequested | AuthAwaitingPkOk | AuthSigned | AuthComplete | AuthFailed

datatype ChannelPhase =
  ChannelInit | ChannelOpening | ChannelOpen | ChannelPtyRequested | ChannelShellRequested
  | ChannelActive | ChannelClosed

record KexState =
  ks_phase :: KexPhase
  ks_serverKexList :: "string list"
  ks_serverHostKeyTypes :: "string list"
  ks_negotiated :: "AlgorithmNegotiation option"
  ks_kexInitC :: "bytes option"
  ks_kexInitS :: "bytes option"

record AuthState =
  as_phase :: AuthPhase
  as_receivedPKOk :: bool
  as_error :: "string option"

record ChannelState =
  ch_phase :: ChannelPhase
  clientChannelId :: nat
  serverChannelId :: nat
  windowSizeLocal :: nat
  windowSizeRemote :: nat
  ch_ptySent :: bool
  ch_shellSent :: bool

record ConnectionState =
  phase :: ConnectionPhase
  serverIdent :: string
  cs_sessionId :: "bytes option"
  kex :: KexState
  auth :: AuthState
  channel :: ChannelState
  cipher :: "TransportCipher option"
  cs_fatalError :: "string option"

definition createConnectionState :: "nat \<Rightarrow> ConnectionState" where
  "createConnectionState defaultWindowSize =
     \<lparr>phase = PhaseIdentExchange,
      serverIdent = '''',
      cs_sessionId = None,
      kex = \<lparr>ks_phase = KexInit, ks_serverKexList = [], ks_serverHostKeyTypes = [],
              ks_negotiated = None, ks_kexInitC = None, ks_kexInitS = None\<rparr>,
      auth = \<lparr>as_phase = AuthInit, as_receivedPKOk = False, as_error = None\<rparr>,
      channel = \<lparr>ch_phase = ChannelInit, clientChannelId = 0, serverChannelId = 0,
                  windowSizeLocal = defaultWindowSize, windowSizeRemote = defaultWindowSize,
                  ch_ptySent = False, ch_shellSent = False\<rparr>,
      cipher = None,
      cs_fatalError = None\<rparr>"

definition setFatalError :: "ConnectionState \<Rightarrow> string \<Rightarrow> ConnectionState" where
  "setFatalError st err = st\<lparr>phase := PhaseError, cs_fatalError := Some err\<rparr>"

fun transitionConnectionPhase :: "ConnectionPhase \<Rightarrow> ConnectionPhase" where
  "transitionConnectionPhase PhaseIdentExchange = PhaseKex"
| "transitionConnectionPhase PhaseKex = PhaseAuth"
| "transitionConnectionPhase PhaseAuth = PhaseChannelOpen"
| "transitionConnectionPhase PhaseChannelOpen = PhaseActive"
| "transitionConnectionPhase PhaseActive = PhaseActive"
| "transitionConnectionPhase PhaseClosed = PhaseClosed"
| "transitionConnectionPhase PhaseError = PhaseError"

section \<open>Connection orchestrator (connection/connectSSH.ts)\<close>

text \<open>
  What the caller passes to \<open>connectSSH\<close> and the orchestrator never changes: the
  credentials (the private key and the parsed certificate), the optional terminal size,
  and whether the callbacks \<open>onError\<close> and \<open>onPtyDenied\<close> were given.
\<close>

record Config =
  username :: string
  privKey :: bytes
  certKeyType :: string
  certBlob :: bytes
  optCols :: "nat option"
  optRows :: "nat option"
  hasOnError :: bool
  hasOnPtyDenied :: bool

text \<open>
  The mutable fields of \<open>SSHConnectionOrchestrator\<close>, with what it does to the outside
  recorded in traces: \<open>wsSent\<close> lists the frames handed to \<open>ws.send\<close>,
  \<open>onErrorCalls\<close> the messages passed to the caller's \<open>onError\<close>,
  \<open>dataCallbackCalls\<close> the strings delivered to the data subscriber and
  \<open>onPtyDeniedCalls\<close> counts the calls of \<open>onPtyDenied\<close>. \<open>wsOpen\<close> is
  \<open>ws.readyState === WebSocket.OPEN\<close>; \<open>kexTimeoutId\<close> tells whether the timer is
  armed (its callback only logs); \<open>randomTape\<close> is what \<open>crypto.getRandomValues\<close> will
  return next. The chain \<open>sendPending\<close> orders the encrypted sends one after the other:
  here every send completes before the next statement runs.
\<close>

record Orchestrator =
  wsOpen :: bool
  wsSent :: "bytes list"
  onErrorCalls :: "string list"
  onPtyDeniedCalls :: nat
  dataCallbackCalls :: "string list"
  connState :: ConnectionState
  dataCallback :: bool
  dataBuffer :: bytes
  encryptedBuf :: bytes
  identBuf :: bytes
  draining :: bool
  useEncrypted :: bool
  kexTimeoutId :: bool
  fatalError :: bool
  channelId :: nat
  peerChannelId :: bytes
  shellSent :: bool
  flushCount :: nat
  kexInitC :: "bytes option"
  kexInitS :: "bytes option"
  serverKexList :: "string list"
  negotiatedMac :: "string option"
  ephemeralPriv :: "bytes option"
  qc :: "bytes option"
  dhX :: "int option"
  dhE :: "int option"
  sessionId :: "bytes option"
  receivedPKOk :: bool
  randomTape :: rng

definition newOrchestrator :: "bool \<Rightarrow> rng \<Rightarrow> Orchestrator" where
  "newOrchestrator isOpen rnd =
     \<lparr>wsOpen = isOpen, wsSent = [], onErrorCalls = [], onPtyDeniedCalls = 0,
      dataCallbackCalls = [],
      connState = createConnectionState DEFAULT_WINDOW_SIZE,
      dataCallback = False, dataBuffer = [], encryptedBuf = [], identBuf = [],
      draining = False, useEncrypted = False, kexTimeoutId = False, fatalError = False,
      channelId = 0, peerChannelId = [0, 0, 0, 0], shellSent = False, flushCount = 0,
      kexInitC = None, kexInitS = None, serverKexList = [], negotiatedMac = None,
      ephemeralPriv = None, qc = None, dhX = None, dhE = None, sessionId = None,
      receivedPKOk = False, randomTape = rnd\<rparr>"

definition dropRandom :: "nat \<Rightarrow> Orchestrator \<Rightarrow> Orchestrator" where
  "dropRandom n s = s\<lparr>randomTape := (\<lambda>i. randomTape s (i + n))\<rparr>"

definition send :: "Orchestrator \<Rightarrow> bytes \<Rightarrow> Orchestrator" where
  "send s data = (if wsOpen s then s\<lparr>wsSent := wsSent s @ [data]\<rparr> else s)"

definition start :: "WebCrypto \<Rightarrow> Orchestrator \<Rightarrow> Orchestrator" where
  "start env s = send s (textEncode (CLIENT_IDENT env @ [CHR 0x0D, CHR 0x0A]))"

definition setFatal :: "Config \<Rightarrow> Orchestrator \<Rightarrow> string \<Rightarrow> Orchestrator" where
  "setFatal cfg s msg =
     (if \<not> fatalError s
      then s\<lparr>fatalError := True,
             onErrorCalls := (if hasOnError cfg then onErrorCalls s @ [msg] else onErrorCalls s)\<rparr>
      else s)"

text \<open>\<open>this.send(buildPacket(payload))\<close>: the packet takes its padding from the tape.\<close>

definition sendPacket :: "Orchestrator \<Rightarrow> bytes \<Rightarrow> Orchestrator" where
  "sendPacket s pl =
     send (dropRandom (calculatePadding (length pl) False) s)
          (buildPacket (randomTape s) pl False)"

definition sendEncrypted :: "WebCrypto \<Rightarrow> Orchestrator \<Rightarrow> bytes \<Rightarrow> Orchestrator" where
  "sendEncrypted env s pl =
     (case cipher (connState s) of
        None \<Rightarrow> s
      | Some c \<Rightarrow>
          (let r = encrypt env (randomTape s) c pl;
               s1 = dropRandom (calculatePadding (length pl) (macEtm c))
                      (s\<lparr>connState := (connState s)\<lparr>cipher := Some (snd r)\<rparr>\<rparr>)
           in if wsOpen s1 then s1\<lparr>wsSent := wsSent s1 @ [ciphertext (fst r)]\<rparr> else s1))"

definition flushBuf :: "Orchestrator \<Rightarrow> Orchestrator" where
  "flushBuf s =
     (if dataBuffer s \<noteq> [] \<and> dataCallback s
      then s\<lparr>flushCount := flushCount s + 1,
             dataCallbackCalls := dataCallbackCalls s @ [textDecode (dataBuffer s)],
             dataBuffer := []\<rparr>
      else s)"

definition onData :: "Orchestrator \<Rightarrow> Orchestrator" where
  "onData s = flushBuf (s\<lparr>dataCallback := True\<rparr>)"

definition extractServerIdent :: "Orchestrator \<Rightarrow> bytes \<Rightarrow> Orchestrator \<times> bytes option" where
  "extractServerIdent s d =
     (let combined = identBuf s @ d;
          sshStart = findIndex (\<lambda>i. i + 4 \<le> length combined
                        \<and> combined ! i = 0x53 \<and> combined ! (i + 1) = 0x53
                        \<and> combined ! (i + 2) = 0x48 \<and> combined ! (i + 3) = 0x2d)
                       (length combined)
      in case sshStart of
           None \<Rightarrow> (s\<lparr>identBuf := combined\<rparr>, None)
         | Some st \<Rightarrow>
             (let afterIdent = drop st combined;
                  crlf = findIndex (\<lambda>i. i + 1 < length afterIdent
                            \<and> afterIdent ! i = 0x0d \<and> afterIdent ! (i + 1) = 0x0a)
                           (length afterIdent);
                  endTerm = (case crlf of
                               Some e \<Rightarrow> Some (e, 2)
                             | None \<Rightarrow>
                                 (case findIndex (\<lambda>i. afterIdent ! i = 0x0a) (length afterIdent) of
                                    Some e \<Rightarrow> Some (e, 1)
                                  | None \<Rightarrow> None))
              in case endTerm of
                   None \<Rightarrow> (s\<lparr>identBuf := combined\<rparr>, None)
                 | Some (e, termLen) \<Rightarrow>
                     (let s1 = s\<lparr>connState := (connState s)\<lparr>serverIdent :=
                                     textDecode (subarray afterIdent 0 e)\<rparr>,
                                  identBuf := []\<rparr>;
                          restStart = st + e + termLen
                      in if restStart < length combined
                         then (s1, Some (drop restStart combined))
                         else (s1, Some []))))"


section \<open>Message dispatch (processPayload)\<close>

text \<open>
  \<open>processPayload\<close> is a promise: it resolves, or it rejects with an exception. The
  result is the state it leaves and, in the second case, the message of the exception.
  The branches of its chain of conditionals are the functions below, in the order of the
  source. The primitives of the environment are total: a key they would refuse is
  outside the model.
\<close>

type_synonym Completion = "Orchestrator \<times> string option"

definition resolved :: "Orchestrator \<Rightarrow> Completion" where
  "resolved s = (s, None)"

definition rejected :: "Orchestrator \<Rightarrow> string \<Rightarrow> Completion" where
  "rejected s msg = (s, Some msg)"

text \<open>
  The messages of the two exceptions that the dispatch can raise: reading \<open>length\<close> of
  the null session id, and a \<open>DataView\<close> that does not fit its buffer (the wording is
  that of V8).
\<close>

definition nullLengthError :: string where
  "nullLengthError = ''Cannot read properties of null (reading '' @ [CHR 0x27] @ ''length''
     @ [CHR 0x27] @ '')''"

definition dataViewError :: string where
  "dataViewError = ''Invalid DataView length 4''"

definition handleDisconnect :: "Config \<Rightarrow> Orchestrator \<Rightarrow> bytes \<Rightarrow> Orchestrator" where
  "handleDisconnect cfg s p =
     (let reasonCode = (if length p \<ge> 5 then getUint32 (subarray p 1 5) else 0);
          msg = (case readString p 5 of
                   Some (v, used) \<Rightarrow> v
                 | None \<Rightarrow> ''reason_code='' @ showNat reasonCode)
      in setFatal cfg s (''Server disconnected: '' @ msg))"

definition handleGlobalRequest :: "WebCrypto \<Rightarrow> Orchestrator \<Rightarrow> bytes \<Rightarrow> Orchestrator" where
  "handleGlobalRequest env s p =
     (case readString p 1 of
        None \<Rightarrow> s
      | Some (v, used) \<Rightarrow>
          (let wantReply = (1 + used < length p \<and> p ! (1 + used) \<noteq> 0) in
           if wantReply
           then (let ok = (v = ''keepalive@openssh.com'');
                     reply = [of_nat (if ok then SSH_MSG_REQUEST_SUCCESS else SSH_MSG_REQUEST_FAILURE)]
                 in sendEncrypted env s reply)
           else s))"

definition startKex :: "WebCrypto \<Rightarrow> Config \<Rightarrow> Orchestrator \<Rightarrow> string list \<Rightarrow> Orchestrator" where
  "startKex env cfg s1 serverMacList =
     (let ourMacList = splitList PREFERRED_MAC;
          s2 = s1\<lparr>negotiatedMac := find (\<lambda>a. a \<in> set serverMacList) ourMacList\<rparr>
      in if falsy (negotiatedMac s2)
         then setFatal cfg s2 (''MAC negotiation failed: server supports ''
                @ joinWith '','' (take 3 serverMacList)
                @ ''... we need hmac-sha2-256 or hmac-sha2-256-etm@openssh.com'')
         else
           (let ourKexList = splitList PREFERRED_KEX;
                negotiated = find (\<lambda>a. a \<in> set (serverKexList s2)) ourKexList;
                isDH = (negotiated = Some ''diffie-hellman-group14-sha256'');
                isCurve = (negotiated = Some ''curve25519-sha256''
                           \<or> negotiated = Some ''curve25519-sha256@libssh.org'')
            in if falsy negotiated \<or> (\<not> isDH \<and> \<not> isCurve)
               then setFatal cfg s2 (''KEX negotiation failed: server supports ''
                      @ joinWith '','' (take 3 (serverKexList s2))
                      @ ''... we need curve25519 or diffie-hellman-group14-sha256'')
               else
                 (let kexInit = buildKexInit (randomTape s2);
                      s3 = sendPacket ((dropRandom 16 s2)\<lparr>kexInitC := Some kexInit\<rparr>) kexInit;
                      s4 = (if isDH
                            then (let g = dhGenerate env (randomTape s3);
                                      x = fst (fst g);
                                      e = snd (fst g)
                                  in sendPacket (s3\<lparr>dhX := Some x, dhE := Some e,
                                                     randomTape := snd g\<rparr>)
                                       ([of_nat SSH_MSG_KEXDH_INIT] @ writeBigintMpint e))
                            else (let kp = x25519Generate env (randomTape s3)
                                  in sendPacket (s3\<lparr>ephemeralPriv := Some (snd kp),
                                                     qc := Some (fst kp)\<rparr>)
                                       ([of_nat SSH_MSG_KEX_ECDH_INIT] @ writeBytes (fst kp))))
                  in s4\<lparr>kexTimeoutId := True\<rparr>)))"

definition handleKexInit :: "WebCrypto \<Rightarrow> Config \<Rightarrow> Orchestrator \<Rightarrow> bytes \<Rightarrow> Orchestrator" where
  "handleKexInit env cfg s0 p =
     (let s = s0\<lparr>kexInitS := Some p\<rparr> in
      case readString p 17 of
        None \<Rightarrow> setFatal cfg s ''kex init parse''
      | Some (serverKex, c1) \<Rightarrow>
          (let s1 = s\<lparr>serverKexList := splitList serverKex\<rparr> in
           case readString p (17 + c1) of
             None \<Rightarrow> setFatal cfg s1 ''kex init server_host_key''
           | Some (serverHostKey, c2) \<Rightarrow>
               (case readString p (17 + c1 + c2) of
                  None \<Rightarrow> setFatal cfg s1 ''kex init cipher_ctos''
                | Some (cipherCtos, c3) \<Rightarrow>
                    (case readString p (17 + c1 + c2 + c3) of
                       None \<Rightarrow> setFatal cfg s1 ''kex init cipher_stoc''
                     | Some (cipherStoc, c4) \<Rightarrow>
                         (case readString p (17 + c1 + c2 + c3 + c4) of
                            None \<Rightarrow> setFatal cfg s1 ''kex init mac_ctos''
                          | Some (macCtos, c5) \<Rightarrow>
                              (case readString p (17 + c1 + c2 + c3 + c4 + c5) of
                                 None \<Rightarrow> setFatal cfg s1 ''kex init mac_stoc''
                               | Some (macStoc, c6) \<Rightarrow>
                                   startKex env cfg s1 (splitList macStoc)))))))"

text \<open>
  The common end of the two reply branches: the exchange hash \<open>h\<close> becomes the session
  id, the six keys are derived from the encoded secret, the transport cipher is created
  with both sequence numbers at 3, and NEWKEYS is sent in the clear.
\<close>

definition installKeys :: "WebCrypto \<Rightarrow> Orchestrator \<Rightarrow> bytes \<Rightarrow> bytes \<Rightarrow> Orchestrator" where
  "installKeys env s h kEncoded =
     (let s1 = s\<lparr>sessionId := Some h, connState := (connState s)\<lparr>cs_sessionId := Some h\<rparr>\<rparr>;
          keys = deriveKeys env kEncoded h h;
          etm = (negotiatedMac s1 = Some ''hmac-sha2-256-etm@openssh.com'');
          c = createTransportCipher (ivC keys) (keyC keys) (dkMacC keys)
                (ivS keys) (keyS keys) (dkMacS keys) 3 3 etm;
          s2 = s1\<lparr>connState := (connState s1)\<lparr>cipher := Some c\<rparr>\<rparr>
      in sendPacket s2 [of_nat SSH_MSG_NEWKEYS])"

definition handleKexDhReply ::
  "WebCrypto \<Rightarrow> Config \<Rightarrow> Orchestrator \<Rightarrow> bytes \<Rightarrow> Orchestrator" where
  "handleKexDhReply env cfg s0 p =
     (let s = s0\<lparr>kexTimeoutId := False\<rparr> in
      case readBytes p 1 of
        None \<Rightarrow> setFatal cfg s ''kex dh reply parse''
      | Some (serverHostKey, c1) \<Rightarrow>
          (case readMpint p (1 + c1) of
             None \<Rightarrow> setFatal cfg s ''kex dh reply f''
           | Some (f, c2) \<Rightarrow>
               (let k = computeDHSharedSecret env f (the (dhX s));
                    vc = CLIENT_IDENT env;
                    vs = stripFinalNewline (serverIdent (connState s));
                    h = computeSHA256 env
                          (writeString vc @ writeString vs @ writeBytes (the (kexInitC s))
                           @ writeBytes (the (kexInitS s)) @ writeBytes serverHostKey
                           @ writeBigintMpint (the (dhE s)) @ writeBigintMpint f
                           @ writeBigintMpint k)
                in installKeys env s h (writeBigintMpint k))))"

definition handleKexEcdhReply ::
  "WebCrypto \<Rightarrow> Config \<Rightarrow> Orchestrator \<Rightarrow> bytes \<Rightarrow> Orchestrator" where
  "handleKexEcdhReply env cfg s0 p =
     (let s = s0\<lparr>kexTimeoutId := False\<rparr> in
      case readBytes p 1 of
        None \<Rightarrow> setFatal cfg s ''kex reply parse''
      | Some (serverHostKey, c1) \<Rightarrow>
          (case readBytes p (1 + c1) of
             None \<Rightarrow> setFatal cfg s ''kex reply qs''
           | Some (qs, c2) \<Rightarrow>
               (let k = x25519DeriveBits env (the (ephemeralPriv s)) qs;
                    vc = CLIENT_IDENT env;
                    vs = stripFinalNewline (serverIdent (connState s));
                    h = computeSHA256 env
                          (writeString vc @ writeString vs @ writeBytes (the (kexInitC s))
                           @ writeBytes (the (kexInitS s)) @ writeBytes serverHostKey
                           @ writeBytes (the (qc s)) @ writeBytes qs @ writeByteMpint k)
                in installKeys env s h (writeByteMpint k))))"

definition handleNewKeys :: "WebCrypto \<Rightarrow> Orchestrator \<Rightarrow> Orchestrator" where
  "handleNewKeys env s =
     sendEncrypted env (s\<lparr>useEncrypted := True\<rparr>)
       ([of_nat SSH_MSG_SERVICE_REQUEST] @ writeString ''ssh-userauth'')"

text \<open>
  The signed authentication request of the branches SERVICE_ACCEPT and USERAUTH_PK_OK.
  Both read \<open>this.sessionId!\<close>: on a null session id \<open>writeBytes\<close> raises a TypeError.
\<close>

definition sendAuthRequest :: "WebCrypto \<Rightarrow> Config \<Rightarrow> Orchestrator \<Rightarrow> Completion" where
  "sendAuthRequest env cfg s =
     (case sessionId s of
        None \<Rightarrow> rejected s nullLengthError
      | Some sid \<Rightarrow>
          (let signData = writeBytes sid @ [of_nat SSH_MSG_USERAUTH_REQUEST]
                 @ writeString (username cfg) @ writeString ''ssh-connection''
                 @ writeString ''publickey'' @ [1] @ writeString (certKeyType cfg)
                 @ writeBytes (certBlob cfg);
               sig = ed25519SignRaw env (privKey cfg) signData;
               sigAlg = (if startsWith (certKeyType cfg) ''ssh-ed25519'' then ''ssh-ed25519''
                         else certKeyType cfg);
               sigBlob = writeString sigAlg @ writeBytes sig;
               authReq = [of_nat SSH_MSG_USERAUTH_REQUEST]
                 @ writeString (username cfg) @ writeString ''ssh-connection''
                 @ writeString ''publickey'' @ [1] @ writeString (certKeyType cfg)
                 @ writeBytes (certBlob cfg) @ writeBytes sigBlob
           in resolved (sendEncrypted env s authReq)))"

definition handleUserauthFailure :: "Config \<Rightarrow> Orchestrator \<Rightarrow> bytes \<Rightarrow> Orchestrator" where
  "handleUserauthFailure cfg s p =
     (let hint = (if receivedPKOk s then ''signature verification failed''
                  else ''server rejected key/cert'');
          msg = (case readString p 1 of
                   Some (v, used) \<Rightarrow>
                     ''Auth failed ('' @ hint @ ''): '' @ (if v \<noteq> [] then v else ''publickey'')
                 | None \<Rightarrow> ''Auth failed ('' @ hint @ '')'')
      in setFatal cfg s msg)"

definition handleUserauthSuccess :: "WebCrypto \<Rightarrow> Orchestrator \<Rightarrow> Orchestrator" where
  "handleUserauthSuccess env s =
     sendEncrypted env s
       ([of_nat SSH_MSG_CHANNEL_OPEN] @ writeString ''session''
        @ [0, 0, 0, 1] @ [0, 0, 0x80, 0] @ [0, 0, 0x20, 0])"

text \<open>
  CHANNEL_OPEN_CONFIRMATION reads the channel id through a \<open>DataView\<close> on the buffer
  under the payload, without a length check. \<open>rest\<close> is what that buffer holds behind
  the payload: the padding and the MAC bytes of a decrypted packet, nothing for a packet
  that came in the clear. \<open>p.slice(5, 9)\<close> stays inside the payload.
\<close>

definition handleChannelOpenConfirmation ::
  "WebCrypto \<Rightarrow> Config \<Rightarrow> Orchestrator \<Rightarrow> bytes \<Rightarrow> bytes \<Rightarrow> Completion" where
  "handleChannelOpenConfirmation env cfg s p rest =
     (if length (p @ rest) < 5 then rejected s dataViewError
      else
        (let s1 = s\<lparr>channelId := getUint32 (subarray (p @ rest) 1 5),
                    peerChannelId := subarray p 5 9\<rparr>;
             cols = (case optCols cfg of Some c \<Rightarrow> c | None \<Rightarrow> DEFAULT_TERMINAL_COLS);
             rows = (case optRows cfg of Some r \<Rightarrow> r | None \<Rightarrow> DEFAULT_TERMINAL_ROWS);
             ptyReq = [of_nat SSH_MSG_CHANNEL_REQUEST] @ peerChannelId s1
               @ writeString ''pty-req'' @ [1] @ writeString DEFAULT_TERMINAL_TYPE
               @ writeUint32 cols @ writeUint32 rows @ writeUint32 0 @ writeUint32 0
               @ writeBytes [0]
         in resolved (sendEncrypted env s1 ptyReq)))"

text \<open>The dash of the message is U+2014, given by its three UTF-8 bytes.\<close>

definition ptyDeniedMessage :: string where
  "ptyDeniedMessage = ''PTY request denied '' @ [CHR 0xE2, CHR 0x80, CHR 0x94]
     @ '' shell may have no prompt or echo. Check cert has permit-pty.''"

definition handleChannelReply :: "WebCrypto \<Rightarrow> Config \<Rightarrow> Orchestrator \<Rightarrow> nat \<Rightarrow> Orchestrator" where
  "handleChannelReply env cfg s msgType =
     (let s1 = (if msgType = SSH_MSG_CHANNEL_FAILURE
                then s\<lparr>onErrorCalls := (if hasOnError cfg then onErrorCalls s @ [ptyDeniedMessage]
                                         else onErrorCalls s),
                       onPtyDeniedCalls := (if hasOnPtyDenied cfg then onPtyDeniedCalls s + 1
                                            else onPtyDeniedCalls s)\<rparr>
                else s);
          shellReq = [of_nat SSH_MSG_CHANNEL_REQUEST] @ peerChannelId s1
            @ writeString ''shell'' @ [1]
      in (sendEncrypted env s1 shellReq)\<lparr>shellSent := True\<rparr>)"

text \<open>CHANNEL_DATA reads its bytes at offset 5, CHANNEL_EXTENDED_DATA at offset 9.\<close>

definition handleChannelData :: "WebCrypto \<Rightarrow> Orchestrator \<Rightarrow> bytes \<Rightarrow> nat \<Rightarrow> Orchestrator" where
  "handleChannelData env s p offset =
     (case readBytes p offset of
        None \<Rightarrow> s
      | Some (v, used) \<Rightarrow>
          (let s1 = flushBuf (s\<lparr>dataBuffer := dataBuffer s @ v\<rparr>) in
           if length v > 0
           then sendEncrypted env s1
                  ([of_nat SSH_MSG_CHANNEL_WINDOW_ADJUST] @ peerChannelId s1
                   @ writeUint32 (length v))
           else s1))"

text \<open>
  The dispatch. An empty payload has no first byte: every comparison fails and nothing
  happens. The last branch of the source only logs.
\<close>

definition processPayload ::
  "WebCrypto \<Rightarrow> Config \<Rightarrow> Orchestrator \<Rightarrow> bytes \<Rightarrow> bytes \<Rightarrow> Completion" where
  "processPayload env cfg s p rest =
     (case p of
        [] \<Rightarrow> resolved s
      | b0 # p' \<Rightarrow>
          (let msgType = unat b0 in
           if msgType = 2 then resolved s
           else if msgType = 1 then resolved (handleDisconnect cfg s p)
           else if msgType = 3 then resolved s
           else if msgType = 4 then resolved s
           else if msgType = SSH_MSG_EXT_INFO then resolved s
           else if msgType = SSH_MSG_GLOBAL_REQUEST then resolved (handleGlobalRequest env s p)
           else if msgType = SSH_MSG_KEXINIT \<and> kexInitS s = None
             then resolved (handleKexInit env cfg s p)
           else if msgType = SSH_MSG_KEXDH_REPLY \<and> dhX s \<noteq> None \<and> dhE s \<noteq> None
                   \<and> kexInitC s \<noteq> None \<and> kexInitS s \<noteq> None
             then resolved (handleKexDhReply env cfg s p)
           else if msgType = SSH_MSG_KEX_ECDH_REPLY \<and> ephemeralPriv s \<noteq> None \<and> qc s \<noteq> None
                   \<and> kexInitC s \<noteq> None \<and> kexInitS s \<noteq> None
             then resolved (handleKexEcdhReply env cfg s p)
           else if msgType = SSH_MSG_NEWKEYS then resolved (handleNewKeys env s)
           else if msgType = SSH_MSG_SERVICE_ACCEPT then sendAuthRequest env cfg s
           else if msgType = SSH_MSG_USERAUTH_FAILURE then resolved (handleUserauthFailure cfg s p)
           else if msgType = SSH_MSG_USERAUTH_PK_OK
             then sendAuthRequest env cfg (s\<lparr>receivedPKOk := True\<rparr>)
           else if msgType = SSH_MSG_USERAUTH_SUCCESS then resolved (handleUserauthSuccess env s)
           else if msgType = SSH_MSG_CHANNEL_OPEN_CONFIRMATION
             then handleChannelOpenConfirmation env cfg s p rest
           else if (msgType = SSH_MSG_CHANNEL_SUCCESS \<or> msgType = SSH_MSG_CHANNEL_FAILURE)
                   \<and> \<not> shellSent s
             then resolved (handleChannelReply env cfg s msgType)
           else if msgType = SSH_MSG_CHANNEL_DATA then resolved (handleChannelData env s p 5)
           else if msgType = SSH_MSG_CHANNEL_EXTENDED_DATA
             then resolved (handleChannelData env s p 9)
           else resolved s))"


section \<open>Test vectors\<close>

text \<open>
  A concrete instance of the primitives, for evaluating the model on explicit inputs. The
  keystream is a simple function of the key, the counter and the position, and the MAC
  and the digest are 32-byte checksums. The results stated on these vectors do not
  depend on the values of the primitives beyond what each statement shows.
\<close>

definition exampleCrypto :: WebCrypto where
  "exampleCrypto = \<lparr>
     aesKeystream = (\<lambda>key counter j.
        (case key of [] \<Rightarrow> 0 | k # _ \<Rightarrow> k) + (case rev counter of [] \<Rightarrow> 0 | k # _ \<Rightarrow> k) + of_nat j),
     hmacSign = (\<lambda>key data. replicate 31 0 @ [fold (+) (key @ data) 0]),
     digestSHA256 = (\<lambda>data. replicate 31 0 @ [fold (+) data 0]),
     x25519Generate = (\<lambda>r. (map r [0..<32], map r [32..<64])),
     x25519DeriveBits = (\<lambda>priv pub. map (\<lambda>(a, b). a XOR b) (zip priv pub)),
     ed25519SignRaw = (\<lambda>key data. replicate 63 0 @ [fold (+) (key @ data) 0]),
     dhGenerate = (\<lambda>r. ((5, 32), r)),
     DH_PRIME = 23,
     CLIENT_IDENT = ''SSH-2.0-client''\<rparr>"

definition exampleIv :: bytes where
  "exampleIv = [1, 1, 1, 1, 1, 1, 1, 1, 1, 1, 1, 1, 1, 1, 1, 1]"

definition exampleKey :: bytes where
  "exampleKey = [2, 2, 2, 2, 2, 2, 2, 2, 2, 2, 2, 2, 2, 2, 2, 2]"

definition exampleMacKey :: bytes where
  "exampleMacKey = [3, 3, 3, 3, 3, 3, 3, 3, 3, 3, 3, 3, 3, 3, 3, 3,
                    3, 3, 3, 3, 3, 3, 3, 3, 3, 3, 3, 3, 3, 3, 3, 3]"

definition exampleCipher :: "bool \<Rightarrow> TransportCipher" where
  "exampleCipher etm =
     createTransportCipher exampleIv exampleKey exampleMacKey
       exampleIv exampleKey exampleMacKey 0 0 etm"

text \<open>
  The MtE packet that \<open>exampleCipher False\<close> produces for the payload \<open>[21]\<close> with
  padding bytes 9, and the same packet with bit 3 of byte 4 flipped.
\<close>

definition examplePacket :: bytes where
  "examplePacket = [3, 4, 5, 10, 13, 29, 0, 3, 2, 5, 4, 7, 6, 25, 24, 27] @ replicate 31 0 @ [229]"

definition exampleTamperedPacket :: bytes where
  "exampleTamperedPacket =
     [3, 4, 5, 10, 5, 29, 0, 3, 2, 5, 4, 7, 6, 25, 24, 27] @ replicate 31 0 @ [229]"

text \<open>
  A caller that passes \<open>onError\<close> and no terminal size, and the orchestrator as its
  constructor leaves it, on an open socket, with a random source that returns 9.
\<close>

definition exampleConfig :: Config where
  "exampleConfig = \<lparr>username = ''alice'', privKey = [7],
     certKeyType = ''ssh-ed25519-cert-v01@openssh.com'', certBlob = [8],
     optCols = None, optRows = None, hasOnError = True, hasOnPtyDenied = False\<rparr>"

definition exampleOrchestrator :: Orchestrator where
  "exampleOrchestrator = newOrchestrator True (\<lambda>i. 9)"

text \<open>
  The orchestrator in the middle of a Diffie-Hellman exchange, and a KEXDH_REPLY with an
  empty host key whose mpint \<open>f\<close> is the single byte \<open>ff\<close>.
\<close>

definition exampleDhState :: Orchestrator where
  "exampleDhState = exampleOrchestrator\<lparr>
     connState := (connState exampleOrchestrator)\<lparr>serverIdent := ''SSH-2.0-s''\<rparr>,
     kexInitC := Some [20], kexInitS := Some [20], dhX := Some 5, dhE := Some 9,
     negotiatedMac := Some ''hmac-sha2-256''\<rparr>"

definition exampleDhReply :: bytes where
  "exampleDhReply = [31, 0, 0, 0, 0, 0, 0, 0, 1, 0xff]"

text \<open>
  The ETM packet that \<open>exampleCipher True\<close> produces for the payload \<open>[21]\<close> with padding
  bytes 9: the length field 16 in the clear, 16 encrypted bytes and the MAC.
\<close>

definition exampleEtmPacket :: bytes where
  "exampleEtmPacket =
     [0, 0, 0, 16, 13, 17, 12, 15, 14, 1, 0, 3, 2, 5, 4, 7, 6, 25, 24, 27] @ replicate 31 0 @ [31]"

text \<open>
  The byte stream of the version-line test: the chunk \<open>"garbage-before-"\<close> followed
  by the chunk \<open>"SSH-2.0-server\r\nMORE"\<close>.
\<close>

definition exampleIdentChunk1 :: bytes where
  "exampleIdentChunk1 = textEncode ''garbage-before-''"

definition exampleIdentChunk2 :: bytes where
  "exampleIdentChunk2 = textEncode (''SSH-2.0-server'' @ [CHR 0x0D, CHR 0x0A] @ ''MORE'')"


definition exampleIdentStream :: bytes where
  "exampleIdentStream = exampleIdentChunk1 @ exampleIdentChunk2"

section \<open>Facts about the wire codec\<close>

lemma be32_arith:
  "(n div 16777216 mod 256) * 16777216 + (n div 65536 mod 256) * 65536
     + (n div 256 mod 256) * 256 + n mod 256 = n mod 4294967296" for n :: nat
proof -
  have a: "n mod 4294967296 = 256 * (n div 256 mod 16777216) + n mod 256"
    using mod_mult2_eq [of n 256 16777216] by simp
  have b: "n div 256 mod 16777216 = 256 * (n div 256 div 256 mod 65536) + n div 256 mod 256"
    using mod_mult2_eq [of "n div 256" 256 65536] by simp
  have c: "n div 256 div 256 mod 65536
             = 256 * (n div 256 div 256 div 256 mod 256) + n div 256 div 256 mod 256"
    using mod_mult2_eq [of "n div 256 div 256" 256 256] by simp
  have d: "n div 256 div 256 = n div 65536" "n div 256 div 256 div 256 = n div 16777216"
    by (simp_all add: div_mult2_eq [symmetric])
  show ?thesis using a b c d by simp
qed

lemma getUint32_writeUint32: "getUint32 (writeUint32 n) = n mod 4294967296"
proof -
  have "getUint32 (writeUint32 n) =
    (n div 16777216 mod 256) * 16777216 + (n div 65536 mod 256) * 65536
      + (n div 256 mod 256) * 256 + n mod 256"
    by (simp add: getUint32_def writeUint32_def unat_of_nat)
  then show ?thesis by (simp only: be32_arith)
qed

lemma length_writeUint32 [simp]: "length (writeUint32 n) = 4"
  by (simp add: writeUint32_def)

lemma mod16_le: "(a::nat) mod 16 \<le> 15"
proof -
  have "a mod 16 < 16" by simp
  then show ?thesis by linarith
qed

lemma calculatePadding_le: "calculatePadding n e \<le> 19"
  by (simp add: calculatePadding_def MIN_PADDING_def AES_BLOCK_SIZE_def Let_def mod16_le)

lemma calculatePadding_ge: "4 \<le> calculatePadding n e"
  by (simp add: calculatePadding_def MIN_PADDING_def AES_BLOCK_SIZE_def Let_def)

lemma length_buildPacket:
  "length (buildPacket rnd p e) = 5 + length p + calculatePadding (length p) e"
  by (simp add: buildPacket_def Let_def)

text \<open>
  Claim C4. For every payload \<open>p\<close> of at most \<open>MAX_PACKET_SIZE - 256\<close> bytes, in both
  padding modes and whatever the random padding bytes are, parsing the packet built from
  \<open>p\<close> succeeds, gives back \<open>p\<close> as the payload and consumes the whole packet.
\<close>

theorem packet_roundtrip:
  assumes "length p \<le> MAX_PACKET_SIZE - 256"
  shows "parsePacket (buildPacket rnd p etm)
           = Some \<lparr>payload = p, consumed = length (buildPacket rnd p etm)\<rparr>"
proof -
  let ?pad = "calculatePadding (length p) etm"
  let ?plen = "1 + length p + ?pad"
  have pad: "?pad \<le> 19" by (rule calculatePadding_le)
  have small: "?plen < 4294967296" using assms pad by (simp add: MAX_PACKET_SIZE_def)
  have hd4: "subarray (buildPacket rnd p etm) 0 4 = writeUint32 ?plen"
    by (simp add: buildPacket_def Let_def subarray_def)
  have g: "getUint32 (subarray (buildPacket rnd p etm) 0 4) = ?plen"
    using small by (simp add: hd4 getUint32_writeUint32)
  have b4: "buildPacket rnd p etm ! 4 = of_nat ?pad"
    by (simp add: buildPacket_def Let_def nth_append)
  have u: "unat (of_nat ?pad :: byte) = ?pad"
    using pad by (simp add: unat_of_nat)
  have sl: "sliceRel (buildPacket rnd p etm) 5 (5 + int (length p)) = p"
    by (simp add: sliceRel_def relIndex_def subarray_def buildPacket_def Let_def)
  show ?thesis
    unfolding parsePacket_def
    by (simp add: g Let_def length_buildPacket b4 u sl)
qed

theorem packet_roundtrip_witness:
  "length [20, 1, 2, 3 :: byte] \<le> MAX_PACKET_SIZE - 256 \<and>
   parsePacket (buildPacket (\<lambda>i. 0) [20, 1, 2, 3] False)
     = Some \<lparr>payload = [20, 1, 2, 3], consumed = 16\<rparr>"
proof -
  have h: "length [20, 1, 2, 3 :: byte] \<le> MAX_PACKET_SIZE - 256"
    by (simp add: MAX_PACKET_SIZE_def)
  have l: "length (buildPacket (\<lambda>i. 0) [20, 1, 2, 3] False) = 16"
    by (simp add: buildPacket_def calculatePadding_def MIN_PADDING_def AES_BLOCK_SIZE_def
          One_nat_def [symmetric] del: One_nat_def)
  show ?thesis
    using h packet_roundtrip [OF h, of "\<lambda>i. 0" False] by (simp add: l)
qed

section \<open>The mpint encoder and decoder\<close>

lemma hexDigits_lt: "d \<in> set (hexDigits n) \<Longrightarrow> d < 16"
proof (induction n arbitrary: d rule: hexDigits.induct)
  case (1 n)
  show ?case
  proof (cases "n < 16")
    case True
    with 1(2) show ?thesis by (simp add: hexDigits.simps [of n])
  next
    case False
    with 1(2) have "d \<in> set (hexDigits (n div 16)) \<or> d = n mod 16"
      by (auto simp add: hexDigits.simps [of n])
    then show ?thesis using 1(1) [OF False] by auto
  qed
qed

lemma hexDigits_value: "fold (\<lambda>d acc. acc * 16 + d) (hexDigits n) 0 = n"
proof (induction n rule: hexDigits.induct)
  case (1 n)
  show ?case
  proof (cases "n < 16")
    case True
    then show ?thesis by (simp add: hexDigits.simps [of n])
  next
    case False
    then show ?thesis using 1 by (simp add: hexDigits.simps [of n])
  qed
qed

lemma hexDigits_hd: "0 < n \<Longrightarrow> hexDigits n \<noteq> [] \<and> 0 < hd (hexDigits n)"
proof (induction n rule: hexDigits.induct)
  case (1 n)
  show ?case
  proof (cases "n < 16")
    case True
    then show ?thesis using 1(2) by (simp add: hexDigits.simps [of n])
  next
    case False
    then have "0 < n div 16" by (simp add: div_greater_zero_iff)
    with 1(1) [OF False] show ?thesis using False by (simp add: hexDigits.simps [of n])
  qed
qed

lemma pairBytes_value:
  "\<forall>d \<in> set ds. d < 16 \<Longrightarrow> even (length ds) \<Longrightarrow>
     fold (\<lambda>x acc. acc * 256 + unat x) (pairBytes ds) a = fold (\<lambda>d acc. acc * 16 + d) ds a"
proof (induction ds arbitrary: a rule: pairBytes.induct)
  case (1 h l r)
  have h: "h < 16" "l < 16" using 1(2) by simp_all
  then have "(16 * h + l) mod 256 = 16 * h + l" by simp
  then have u: "unat (of_nat (16 * h + l) :: byte) = 16 * h + l"
    by (simp only: unat_of_nat) simp
  have "fold (\<lambda>x acc. acc * 256 + unat x) (pairBytes r) (a * 256 + (16 * h + l))
        = fold (\<lambda>d acc. acc * 16 + d) r (a * 256 + (16 * h + l))"
    using 1(2,3) by (intro 1(1)) simp_all
  then show ?case by (simp only: pairBytes.simps fold_simps u) (simp add: algebra_simps)
qed simp_all

lemma fold_int_nat:
  "fold (\<lambda>x acc. acc * 256 + uint x) (b :: bytes) (int a) = int (fold (\<lambda>x acc. acc * 256 + unat x) b a)"
proof (induction b arbitrary: a)
  case Nil
  show ?case by simp
next
  case (Cons x xs)
  show ?case using Cons.IH [of "a * 256 + unat x"] by simp
qed

lemma bigintToBytes_value:
  "fold (\<lambda>x acc. acc * 256 + unat x) (bigintToBytes n) 0 = n"
proof (cases "n = 0")
  case True
  then show ?thesis by (simp add: bigintToBytes_def)
next
  case False
  define hex2 where "hex2 = (if length (hexDigits n) mod 2 \<noteq> 0 then 0 # hexDigits n else hexDigits n)"
  have a: "\<forall>d \<in> set hex2. d < 16" using hexDigits_lt [of _ n] by (auto simp add: hex2_def)
  have b: "even (length hex2)" by (auto simp add: hex2_def)
  have c: "fold (\<lambda>d acc. acc * 16 + d) hex2 0 = n"
    by (simp add: hex2_def hexDigits_value)
  show ?thesis
    unfolding bigintToBytes_def Let_def hex2_def [symmetric]
    using False pairBytes_value [OF a b, of 0] c by simp
qed

lemma readBytes_writeBytes:
  "length b < 4294967296 \<Longrightarrow> readBytes (writeBytes b) 0 = Some (b, 4 + length b)"
  by (simp add: readBytes_def writeBytes_def subarray_def getUint32_writeUint32)

lemma mpint_pad_value:
  "fold (\<lambda>x acc. acc * 256 + uint x) (0 # bs) 0 = fold (\<lambda>x acc. acc * 256 + uint x) bs (0 :: int)" for bs :: bytes
  by simp

lemma readMpint_writeBigintMpint:
  assumes "length (writeBigintMpint n) < 4294967296"
  shows "readMpint (writeBigintMpint n) 0 = Some (\<bar>n\<bar>, length (writeBigintMpint n))"
proof (cases "n = 0")
  case True
  then show ?thesis
    by (simp add: writeBigintMpint_def readMpint_def readBytes_writeBytes) (simp add: writeBytes_def)
next
  case False
  define m where "m = (if n < 0 then - n else n)"
  have m: "m = \<bar>n\<bar>" by (simp add: m_def)
  define bs where "bs = bigintToBytes (nat m)"
  define bs2 where "bs2 = (case bs of [] \<Rightarrow> bs | b # _ \<Rightarrow> if b AND 0x80 \<noteq> 0 then 0 # bs else bs)"
  have w: "writeBigintMpint n = writeBytes bs2"
    unfolding writeBigintMpint_def Let_def m_def [symmetric] bs_def [symmetric] bs2_def [symmetric]
    using False by simp
  have l: "length bs2 < 4294967296" using assms by (simp add: w writeBytes_def)
  have v0: "fold (\<lambda>x acc. acc * 256 + uint x) bs 0 = \<bar>n\<bar>"
    using fold_int_nat [of bs 0] bigintToBytes_value [of "nat m"] by (simp add: bs_def m)
  have v: "fold (\<lambda>x acc. acc * 256 + uint x) bs2 0 = \<bar>n\<bar>"
    using v0 by (auto simp add: bs2_def split: list.splits)
  have t: "(case bs2 of [] \<Rightarrow> X | b0 # _ \<Rightarrow> if b0 AND 0x80 \<noteq> 0 then X - 2 ^ (length bs2 * 8) else X) = X"
    for X :: int
    by (auto simp add: bs2_def split: list.splits)
  show ?thesis
    by (simp add: w readMpint_def readBytes_writeBytes [OF l] Let_def v t) (simp add: writeBytes_def)
qed

lemma example_dh_f: "readMpint exampleDhReply 5 = Some (- 1, 5)"
  by (simp add: readMpint_def readBytes_def exampleDhReply_def subarray_def getUint32_def)

lemma example_dh_k: "computeDHSharedSecret exampleCrypto (- 1) 5 = - 1"
  by (simp add: computeDHSharedSecret_def modPow_def modPowLoop.simps jsRem_def jsDiv_def exampleCrypto_def)

lemma example_dh_hash: "sessionId (fst (processPayload exampleCrypto exampleConfig exampleDhState exampleDhReply []))
     = Some (computeSHA256 exampleCrypto
         (writeString ''SSH-2.0-client'' @ writeString ''SSH-2.0-s'' @ writeBytes [20]
          @ writeBytes [20] @ writeBytes [] @ writeBigintMpint 9 @ writeBigintMpint (- 1)
          @ writeBigintMpint (- 1)))"
proof -
  have c: "CLIENT_IDENT exampleCrypto = ''SSH-2.0-client''" by (simp add: exampleCrypto_def)
  have r: "readBytes exampleDhReply (Suc 0) = Some ([], 4)"
    by (simp add: readBytes_def exampleDhReply_def subarray_def getUint32_def)
  have s: "stripFinalNewline ''SSH-2.0-s'' = ''SSH-2.0-s''" by (simp add: stripFinalNewline_def)
  have p: "processPayload exampleCrypto exampleConfig exampleDhState exampleDhReply []
      = resolved (handleKexDhReply exampleCrypto exampleConfig exampleDhState exampleDhReply)"
    by (simp add: processPayload_def Let_def exampleDhReply_def SSH_MSG_EXT_INFO_def
      SSH_MSG_GLOBAL_REQUEST_def SSH_MSG_KEXINIT_def SSH_MSG_KEXDH_REPLY_def
      exampleDhState_def exampleOrchestrator_def newOrchestrator_def)
  show ?thesis
    unfolding p
    by (simp add: Let_def resolved_def
      handleKexDhReply_def r example_dh_f example_dh_k c s installKeys_def sendPacket_def send_def dropRandom_def
      exampleDhState_def exampleOrchestrator_def newOrchestrator_def createConnectionState_def)
qed

lemma example_mpint_minus_one: "writeBigintMpint (- 1) = [0, 0, 0, 1, 1]"
proof -
  have d: "hexDigits (Suc 0) = [1]" by (simp add: hexDigits.simps)
  show ?thesis by (simp add: writeBigintMpint_def bigintToBytes_def Let_def d writeBytes_def writeUint32_def)
qed

text \<open>
  Claim C9, the part that fails: callers do pass negative values. The KEXDH_REPLY branch
  of the dispatch hands the server's \<open>f\<close>, as \<open>readMpint\<close> decoded it, to
  \<open>writeBigintMpint\<close>, and \<open>readMpint\<close> decodes two's complement: for a reply whose
  mpint \<open>f\<close> is the single byte \<open>ff\<close>, \<open>f\<close> is \<open>-1\<close>. The shared secret
  \<open>k = modPow(f, x, p)\<close> is then \<open>-1\<close> as well (BigInt's \<open>%\<close> truncates), and both enter
  the exchange hash through \<open>writeBigintMpint\<close>, as the encoding of 1.
\<close>

theorem writeBigintMpint_negative_caller_counterexample:
  "readMpint exampleDhReply 5 = Some (- 1, 5)
   \<and> computeDHSharedSecret exampleCrypto (- 1) 5 = - 1
   \<and> sessionId (fst (processPayload exampleCrypto exampleConfig exampleDhState exampleDhReply []))
       = Some (computeSHA256 exampleCrypto
           (writeString ''SSH-2.0-client'' @ writeString ''SSH-2.0-s'' @ writeBytes [20]
            @ writeBytes [20] @ writeBytes [] @ writeBigintMpint 9 @ writeBigintMpint (- 1)
            @ writeBigintMpint (- 1)))
   \<and> writeBigintMpint (- 1) = [0, 0, 0, 1, 1]"
  using example_dh_f example_dh_k example_dh_hash example_mpint_minus_one by simp

text \<open>
  Claim C9, amended. For every negative bigint \<open>n\<close>, \<open>writeBigintMpint n\<close> produces the
  same bytes as \<open>writeBigintMpint (- n)\<close>: the sign is discarded before encoding. The
  bytes are the mpint of the absolute value, not the two's complement of \<open>n\<close>: as long
  as the encoding is shorter than \<open>2^32\<close> bytes (the length field wraps there),
  \<open>readMpint\<close> consumes all of it and decodes it to \<open>- n\<close>, not to \<open>n\<close>. Nothing is
  said about the callers.
\<close>

theorem writeBigintMpint_negative:
  "n < 0 \<Longrightarrow>
     writeBigintMpint n = writeBigintMpint (- n)
     \<and> (length (writeBigintMpint n) < 4294967296 \<longrightarrow>
          readMpint (writeBigintMpint n) 0 = Some (- n, length (writeBigintMpint n))
          \<and> readMpint (writeBigintMpint n) 0 \<noteq> Some (n, length (writeBigintMpint n)))"
  using readMpint_writeBigintMpint [of n] by (simp add: writeBigintMpint_def)

theorem writeBigintMpint_negative_witness:
  "writeBigintMpint (- 128) = [0, 0, 0, 2, 0, 128]
   \<and> writeBigintMpint 128 = [0, 0, 0, 2, 0, 128]
   \<and> readMpint [0, 0, 0, 2, 0, 128] 0 = Some (128, 6)"
proof -
  have h: "(- 128 :: int) < 0" by simp
  have d: "hexDigits 128 = [8, 0]" by code_simp
  have v: "writeBigintMpint 128 = [0, 0, 0, 2, 0, 128]"
    by (simp add: writeBigintMpint_def bigintToBytes_def d writeBytes_def writeUint32_def)
  have m: "writeBigintMpint (- 128) = [0, 0, 0, 2, 0, 128]"
    using writeBigintMpint_negative [OF h] v by simp
  have l: "length (writeBigintMpint (- 128)) < 4294967296" by (simp add: m)
  from writeBigintMpint_negative [OF h] l
  have r: "readMpint (writeBigintMpint (- 128)) 0
             = Some (- (- 128), length (writeBigintMpint (- 128)))" by blast
  from r [unfolded m] show ?thesis using m v by simp
qed

section \<open>Facts about algorithm negotiation\<close>

lemma selectAlgorithm_Some_iff:
  "selectAlgorithm ours srv = Some a \<longleftrightarrow>
     (\<exists>i < length ours. ours ! i = a \<and> a \<in> set srv \<and> (\<forall>j < i. ours ! j \<notin> set srv))"
  by (auto simp add: selectAlgorithm_def find_Some_iff)

lemma selectAlgorithm_None_iff:
  "selectAlgorithm ours srv = None \<longleftrightarrow> set ours \<inter> set srv = {}"
  by (auto simp add: selectAlgorithm_def find_None_iff)

text \<open>
  Claim C7, as stated, fails on the empty algorithm name: with the client list
  \<open>[""]\<close> and the server list \<open>[""]\<close> the kex selection succeeds (it returns the
  first client entry the server also offers, the empty string), the cipher and mac
  selections succeed too, and yet \<open>negotiateAlgorithms\<close> returns null, because its test
  \<open>!kex\<close> is also true of the empty string.
\<close>

theorem negotiateAlgorithms_empty_name_counterexample:
  "selectAlgorithm [''''] [''''] = Some ''''
   \<and> selectAlgorithm [''aes128-ctr''] [''aes128-ctr''] = Some ''aes128-ctr''
   \<and> selectAlgorithm [''hmac-sha2-256''] [''hmac-sha2-256''] = Some ''hmac-sha2-256''
   \<and> negotiateAlgorithms [''''] [''aes128-ctr''] [''hmac-sha2-256'']
        [''''] [''aes128-ctr''] [''hmac-sha2-256''] = None"
  by (simp add: negotiateAlgorithms_def selectAlgorithm_def)

text \<open>
  Claim C7, amended. \<open>selectAlgorithm\<close> returns the first element of the client's list
  that also occurs in the server's list, and null exactly when the two lists share no
  element. \<open>negotiateAlgorithms\<close> returns the triple of the three selections exactly
  when all three succeed with a name that is not empty, and null otherwise.
\<close>

theorem negotiation_first_match:
  "(selectAlgorithm ours srv = Some a \<longleftrightarrow>
      (\<exists>i < length ours. ours ! i = a \<and> a \<in> set srv \<and> (\<forall>j < i. ours ! j \<notin> set srv)))
   \<and> (selectAlgorithm ours srv = None \<longleftrightarrow> set ours \<inter> set srv = {})
   \<and> (negotiateAlgorithms pk pc pm sk sc sm = Some t \<longleftrightarrow>
        (\<exists>k c m. selectAlgorithm pk sk = Some k \<and> selectAlgorithm pc sc = Some c
            \<and> selectAlgorithm pm sm = Some m \<and> k \<noteq> [] \<and> c \<noteq> [] \<and> m \<noteq> []
            \<and> t = \<lparr>kexAlg = k, cipherAlg = c, macAlg = m\<rparr>))
   \<and> (negotiateAlgorithms pk pc pm sk sc sm = None \<longleftrightarrow>
        falsy (selectAlgorithm pk sk) \<or> falsy (selectAlgorithm pc sc)
          \<or> falsy (selectAlgorithm pm sm))"
proof -
  have n: "negotiateAlgorithms pk pc pm sk sc sm = Some t \<longleftrightarrow>
        (\<exists>k c m. selectAlgorithm pk sk = Some k \<and> selectAlgorithm pc sc = Some c
            \<and> selectAlgorithm pm sm = Some m \<and> k \<noteq> [] \<and> c \<noteq> [] \<and> m \<noteq> []
            \<and> t = \<lparr>kexAlg = k, cipherAlg = c, macAlg = m\<rparr>)"
    by (cases "selectAlgorithm pk sk"; cases "selectAlgorithm pc sc";
        cases "selectAlgorithm pm sm") (auto simp add: negotiateAlgorithms_def)
  have m: "negotiateAlgorithms pk pc pm sk sc sm = None \<longleftrightarrow>
        falsy (selectAlgorithm pk sk) \<or> falsy (selectAlgorithm pc sc)
          \<or> falsy (selectAlgorithm pm sm)"
    by (simp add: negotiateAlgorithms_def Let_def)
  show ?thesis
    using selectAlgorithm_Some_iff [of ours srv a] selectAlgorithm_None_iff [of ours srv] n m
    by blast
qed

theorem negotiation_first_match_witness:
  "selectAlgorithm [''alg-a'', ''alg-b'', ''alg-c''] [''alg-c'', ''alg-b'', ''alg-x''] = Some ''alg-b''
   \<and> (\<exists>i < length [''alg-a'', ''alg-b'', ''alg-c'']. [''alg-a'', ''alg-b'', ''alg-c''] ! i = ''alg-b''
         \<and> (\<forall>j < i. [''alg-a'', ''alg-b'', ''alg-c''] ! j \<notin> set [''alg-c'', ''alg-b'', ''alg-x'']))
   \<and> selectAlgorithm [''alg-a''] [''alg-x''] = None
   \<and> negotiateAlgorithms [''curve25519-sha256''] [''aes128-ctr''] [''hmac-sha2-256'']
        [''curve25519-sha256''] [''aes128-ctr''] [''hmac-sha2-256'']
       = Some \<lparr>kexAlg = ''curve25519-sha256'', cipherAlg = ''aes128-ctr'',
                macAlg = ''hmac-sha2-256''\<rparr>"
proof -
  have s: "selectAlgorithm [''alg-a'', ''alg-b'', ''alg-c''] [''alg-c'', ''alg-b'', ''alg-x'']
             = Some ''alg-b''"
    by (simp add: selectAlgorithm_def)
  have e: "\<exists>i < length [''alg-a'', ''alg-b'', ''alg-c'']. [''alg-a'', ''alg-b'', ''alg-c''] ! i = ''alg-b''
         \<and> (\<forall>j < i. [''alg-a'', ''alg-b'', ''alg-c''] ! j \<notin> set [''alg-c'', ''alg-b'', ''alg-x''])"
    using s negotiation_first_match
      [of "[''alg-a'', ''alg-b'', ''alg-c'']" "[''alg-c'', ''alg-b'', ''alg-x'']" "''alg-b''"]
    by blast
  have n: "selectAlgorithm [''alg-a''] [''alg-x''] = None"
    by (simp add: selectAlgorithm_def)
  have t: "negotiateAlgorithms [''curve25519-sha256''] [''aes128-ctr''] [''hmac-sha2-256'']
        [''curve25519-sha256''] [''aes128-ctr''] [''hmac-sha2-256'']
       = Some \<lparr>kexAlg = ''curve25519-sha256'', cipherAlg = ''aes128-ctr'',
                macAlg = ''hmac-sha2-256''\<rparr>"
    by (simp add: negotiateAlgorithms_def selectAlgorithm_def)
  show ?thesis using s e n t by blast
qed

lemma xor_eq_0_word: "(x XOR y = 0) = (x = y)" for x y :: byte
proof
  assume h: "x XOR y = 0"
  have "y = (x XOR x) XOR y" by simp
  also have "\<dots> = x XOR (x XOR y)" by (simp only: xor.assoc)
  also have "\<dots> = x" using h by simp
  finally show "x = y" by simp
next
  assume "x = y" then show "x XOR y = 0" by simp
qed

lemma or_eq_0_word: "(a OR b = 0) = (a = 0 \<and> b = 0)" for a b :: byte
  by (auto simp: bit_eq_iff bit_or_iff)

lemma fold_ct: "length a = length b \<Longrightarrow>
  (fold (\<lambda>(x, y) diff. diff OR (x XOR y)) (zip a b) d = (0::byte)) = (d = 0 \<and> a = b)"
proof (induction a b arbitrary: d rule: list_induct2)
  case Nil then show ?case by simp
next
  case (Cons x xs y ys)
  then show ?case by (auto simp add: or_eq_0_word xor_eq_0_word)
qed

lemma constantTimeEqual_iff: "constantTimeEqual a b = (a = b)"
  by (auto simp add: constantTimeEqual_def fold_ct)

lemma length_ctrBlock [simp]: "length (ctrBlock env key counter blk) = length blk"
  by (simp add: ctrBlock_def)

lemma nth_ctrBlock: "j < length blk \<Longrightarrow> ctrBlock env key counter blk ! j = blk ! j XOR aesKeystream env key counter j"
  by (simp add: ctrBlock_def)

lemma ctrBlock_involution: "ctrBlock env key counter (ctrBlock env key counter blk) = blk"
  by (rule nth_equalityI) (simp_all add: nth_ctrBlock xor.assoc)

lemma ctrBlock_take: "take n (ctrBlock env key counter blk) = ctrBlock env key counter (take n blk)"
  by (rule nth_equalityI) (simp_all add: nth_ctrBlock)

lemma ctrLoop_Nil [simp]: "ctrLoop env key iv [] = ([], iv)"
  by (simp add: ctrLoop.simps)

lemma length_ctrLoop [simp]: "length (fst (ctrLoop env key iv dat)) = length dat"
proof (induction env key iv dat rule: ctrLoop.induct)
  case (1 env key ivCopy dat)
  show ?case
  proof (cases "dat = []")
    case True then show ?thesis by (simp add: ctrLoop.simps)
  next
    case False
    then show ?thesis using 1 by (subst ctrLoop.simps) (simp add: Let_def)
  qed
qed

lemma ctrLoop_step:
  "dat \<noteq> [] \<Longrightarrow> ctrLoop env key iv dat =
     (ctrBlock env key iv (take 16 dat) @ fst (ctrLoop env key (incrementCounter iv 1) (drop 16 dat)),
      snd (ctrLoop env key (incrementCounter iv 1) (drop 16 dat)))"
  by (subst ctrLoop.simps) (simp add: Let_def del: One_nat_def)

lemma ctrLoop_involution: "fst (ctrLoop env key iv (fst (ctrLoop env key iv dat))) = dat"
proof (induction env key iv dat rule: ctrLoop.induct)
  case (1 env key ivCopy dat)
  show ?case
  proof (cases "dat = []")
    case True then show ?thesis by simp
  next
    case False
    define iv2 where "iv2 = incrementCounter ivCopy 1"
    define A where "A = ctrBlock env key ivCopy (take 16 dat)"
    define B where "B = fst (ctrLoop env key iv2 (drop 16 dat))"
    have e: "fst (ctrLoop env key ivCopy dat) = A @ B"
      using False by (simp add: ctrLoop_step A_def B_def iv2_def del: One_nat_def)
    have lA: "length A = min (length dat) 16" by (simp add: A_def)
    have lB: "length B = length dat - 16" by (simp add: B_def)
    have "length (A @ B) = length dat" using lA lB by simp
    then have ne: "A @ B \<noteq> []" using False by (metis length_0_conv)
    have t: "take 16 (A @ B) = A" using lA lB by (cases "length dat \<le> 16") simp_all
    have d: "drop 16 (A @ B) = B" using lA lB by (cases "length dat \<le> 16") simp_all
    have ih: "fst (ctrLoop env key iv2 B) = drop 16 dat"
      using 1 [OF False refl refl] by (simp add: B_def iv2_def del: One_nat_def)
    have "fst (ctrLoop env key ivCopy (A @ B)) = ctrBlock env key ivCopy A @ fst (ctrLoop env key iv2 B)"
      using ne by (simp add: ctrLoop_step t d iv2_def del: One_nat_def take_append drop_append)
    also have "\<dots> = take 16 dat @ drop 16 dat"
      by (simp add: ih A_def ctrBlock_involution)
    finally show ?thesis by (simp add: e)
  qed
qed

lemma ctrLoop_snd_length:
  "length dat = length dat2 \<Longrightarrow> snd (ctrLoop env key iv dat) = snd (ctrLoop env key iv dat2)"
proof (induction env key iv dat arbitrary: dat2 rule: ctrLoop.induct)
  case (1 env key ivCopy dat)
  show ?case
  proof (cases "dat = []")
    case True then show ?thesis using 1 by simp
  next
    case False
    then have ne2: "dat2 \<noteq> []" using 1(2) by auto
    have "snd (ctrLoop env key (incrementCounter ivCopy 1) (drop 16 dat))
          = snd (ctrLoop env key (incrementCounter ivCopy 1) (drop 16 dat2))"
      using 1(1) [OF False refl refl, of "drop 16 dat2"] 1(2) by simp
    then show ?thesis using False ne2 by (simp add: ctrLoop_step del: One_nat_def)
  qed
qed

lemma ctrLoop_first_block:
  "length blk \<le> 16 \<Longrightarrow> blk \<noteq> [] \<Longrightarrow> ctrLoop env key iv blk = (ctrBlock env key iv blk, incrementCounter iv 1)"
  by (simp add: ctrLoop_step del: One_nat_def)

lemma ctrLoop_split:
  "16 \<le> length dat \<Longrightarrow> fst (ctrLoop env key iv dat) =
     fst (ctrLoop env key iv (take 16 dat)) @ fst (ctrLoop env key (snd (ctrLoop env key iv (take 16 dat))) (drop 16 dat))"
proof -
  assume h: "16 \<le> length dat"
  then have ne: "dat \<noteq> []" "take 16 dat \<noteq> []" by auto
  have f: "ctrLoop env key iv (take 16 dat) = (ctrBlock env key iv (take 16 dat), incrementCounter iv 1)"
    using ne by (intro ctrLoop_first_block) simp_all
  show ?thesis using ne by (simp add: f ctrLoop_step [of dat] del: One_nat_def)
qed
lemma decryptEtm_None_iff:
  "macEtm c \<Longrightarrow> fst (decryptEtm env c data) = Inr None \<longleftrightarrow>
     (bufferTooShort env c data \<or> packetLengthField env c data < 5
        \<or> MAX_PACKET_SIZE < packetLengthField env c data)"
  by (auto simp add: decryptEtm_def bufferTooShort_def packetLengthField_def Let_def)

lemma decryptStandard_None_iff:
  "\<not> macEtm c \<Longrightarrow> fst (decryptStandard env c data) = Inr None \<longleftrightarrow>
     (bufferTooShort env c data \<or> packetLengthField env c data < 5
        \<or> MAX_PACKET_SIZE < packetLengthField env c data)"
  by (auto simp add: decryptStandard_def bufferTooShort_def packetLengthField_def Let_def)

lemma decryptEtm_state:
  "snd (decryptEtm env c data) = c \<or>
   ((\<exists>r. fst (decryptEtm env c data) = Inr (Some r)) \<and>
    seqIn (snd (decryptEtm env c data)) = seqIn c + 1)"
  by (simp add: decryptEtm_def Let_def)

lemma decryptStandard_state:
  "snd (decryptStandard env c data) = c \<or>
   ((\<exists>r. fst (decryptStandard env c data) = Inr (Some r)) \<and>
    seqIn (snd (decryptStandard env c data)) = seqIn c + 1)"
  by (simp add: decryptStandard_def Let_def)

lemma decryptEtm_unchanged:
  "fst (decryptEtm env c data) = Inr None \<or> (\<exists>e. fst (decryptEtm env c data) = Inl e) \<Longrightarrow> snd (decryptEtm env c data) = c"
  by (auto simp add: decryptEtm_def Let_def split: if_splits)

lemma decryptStandard_unchanged:
  "fst (decryptStandard env c data) = Inr None \<or> (\<exists>e. fst (decryptStandard env c data) = Inl e) \<Longrightarrow> snd (decryptStandard env c data) = c"
  by (auto simp add: decryptStandard_def Let_def split: if_splits)
lemma subarray_0_4_length: "4 \<le> length data \<Longrightarrow> length (subarray data 0 4) = 4"
  by (simp add: subarray_def)

lemma decryptEtm_errors:
  assumes "macEtm c" "\<not> bufferTooShort env c data"
    "5 \<le> packetLengthField env c data" "packetLengthField env c data \<le> MAX_PACKET_SIZE"
    "receivedMac env c data \<noteq> expectedMac env c data \<or> paddingLengthField env c data < 4
       \<or> packetLengthField env c data - 1 < paddingLengthField env c data"
  shows "\<exists>msg. decryptEtm env c data = (Inl (MacVerificationError msg), c)
           \<or> decryptEtm env c data = (Inl (ProtocolError msg), c)"
proof -
  have l: "length (subarray data 0 4) = 4"
    using assms(1,2) by (simp add: bufferTooShort_def subarray_def HMAC_SHA256_SIZE_def)
  have p: "paddingLengthField env c data =
      unat (fst (decryptAES128CTR env (keyDec c) (ivDec c)
                  (subarray data 4 (4 + packetLengthField env c data))) ! 0)"
    using assms(1) l by (simp add: paddingLengthField_def decryptedPacket_def Let_def nth_append)
  show ?thesis
    using assms p
    by (auto simp add: decryptEtm_def bufferTooShort_def packetLengthField_def Let_def
        receivedMac_def expectedMac_def constantTimeEqual_iff simp del: of_nat_unat)
qed

lemma decryptStandard_errors:
  assumes "\<not> macEtm c" "\<not> bufferTooShort env c data"
    "5 \<le> packetLengthField env c data" "packetLengthField env c data \<le> MAX_PACKET_SIZE"
    "receivedMac env c data \<noteq> expectedMac env c data \<or> paddingLengthField env c data < 4
       \<or> packetLengthField env c data - 1 < paddingLengthField env c data"
  shows "\<exists>msg. decryptStandard env c data = (Inl (MacVerificationError msg), c)
           \<or> decryptStandard env c data = (Inl (ProtocolError msg), c)"
  using assms
  by (auto simp add: decryptStandard_def bufferTooShort_def packetLengthField_def Let_def
        receivedMac_def expectedMac_def constantTimeEqual_iff paddingLengthField_def decryptedPacket_def
      simp del: of_nat_unat)

lemma decryptEtm_success:
  assumes "macEtm c" "fst (decryptEtm env c data) = Inr (Some r)"
  shows "receivedMac env c data = expectedMac env c data
         \<and> 4 \<le> paddingLengthField env c data
         \<and> paddingLengthField env c data \<le> packetLengthField env c data - 1"
proof -
  have n: "\<not> (bufferTooShort env c data \<or> packetLengthField env c data < 5
        \<or> MAX_PACKET_SIZE < packetLengthField env c data)"
    using assms decryptEtm_None_iff [of c env data] by auto
  show ?thesis
  proof (rule ccontr)
    assume "\<not> ?thesis"
    then have "receivedMac env c data \<noteq> expectedMac env c data \<or> paddingLengthField env c data < 4
       \<or> packetLengthField env c data - 1 < paddingLengthField env c data" by auto
    from decryptEtm_errors [OF assms(1) _ _ _ this] n assms(2) show False by auto
  qed
qed

lemma decryptStandard_success:
  assumes "\<not> macEtm c" "fst (decryptStandard env c data) = Inr (Some r)"
  shows "receivedMac env c data = expectedMac env c data
         \<and> 4 \<le> paddingLengthField env c data
         \<and> paddingLengthField env c data \<le> packetLengthField env c data - 1"
proof -
  have n: "\<not> (bufferTooShort env c data \<or> packetLengthField env c data < 5
        \<or> MAX_PACKET_SIZE < packetLengthField env c data)"
    using assms decryptStandard_None_iff [of c env data] by auto
  show ?thesis
  proof (rule ccontr)
    assume "\<not> ?thesis"
    then have "receivedMac env c data \<noteq> expectedMac env c data \<or> paddingLengthField env c data < 4
       \<or> packetLengthField env c data - 1 < paddingLengthField env c data" by auto
    from decryptStandard_errors [OF assms(1) _ _ _ this] n assms(2) show False by auto
  qed
qed
lemma length_subarray: "length (subarray xs b e) = min (e - b) (length xs - b)"
  by (simp add: subarray_def)

lemma length_decryptAES128CTR [simp]:
  "length (fst (decryptAES128CTR env key iv dat)) = length dat"
  by (simp add: decryptAES128CTR_def)

lemma length_encryptAES128CTR [simp]:
  "length (fst (encryptAES128CTR env key iv dat)) = length dat"
  by (simp add: encryptAES128CTR_def)

lemma unat_byte_le: "unat w \<le> 255" for w :: byte
  using unsigned_less [of w, where 'a = nat] by simp

lemma decryptEtm_mac_mismatch:
  assumes "macEtm c" "\<not> bufferTooShort env c data"
    "5 \<le> packetLengthField env c data" "packetLengthField env c data \<le> MAX_PACKET_SIZE"
    "receivedMac env c data \<noteq> expectedMac env c data"
  shows "decryptEtm env c data = (Inl (MacVerificationError ''MAC verification failed (EtM mode)''), c)"
  using assms
  by (auto simp add: decryptEtm_def bufferTooShort_def packetLengthField_def Let_def
        receivedMac_def expectedMac_def constantTimeEqual_iff)

lemma length_decryptedPacket_mte:
  assumes "\<not> macEtm c" "\<not> bufferTooShort env c data"
  shows "length (decryptedPacket env c data) = 4 + packetLengthField env c data"
  using assms
  by (auto simp add: decryptedPacket_def bufferTooShort_def Let_def length_subarray
        AES_BLOCK_SIZE_def HMAC_SHA256_SIZE_def)

lemma decryptStandard_mac_mismatch:
  assumes "\<not> macEtm c" "\<not> bufferTooShort env c data"
    "5 \<le> packetLengthField env c data" "packetLengthField env c data \<le> MAX_PACKET_SIZE"
    "4 \<le> paddingLengthField env c data"
    "paddingLengthField env c data \<le> packetLengthField env c data - 1"
    "receivedMac env c data \<noteq> expectedMac env c data"
  shows "decryptStandard env c data = (Inl (MacVerificationError ''MAC verification failed''), c)"
  using assms unat_byte_le [of "decryptedPacket env c data ! 4"]
    by (auto simp add: decryptStandard_def bufferTooShort_def packetLengthField_def Let_def
        receivedMac_def expectedMac_def constantTimeEqual_iff paddingLengthField_def
        decryptedPacket_def not_less length_subarray AES_BLOCK_SIZE_def HMAC_SHA256_SIZE_def
        simp del: of_nat_unat)
lemma buildPacket_take4:
  "take 4 (buildPacket rnd p etm) = writeUint32 (1 + length p + calculatePadding (length p) etm)"
  by (simp add: buildPacket_def Let_def)

lemma buildPacket_nth4:
  "buildPacket rnd p etm ! 4 = of_nat (calculatePadding (length p) etm)"
  by (simp add: buildPacket_def Let_def nth_append)

lemma unat_padding: "unat (of_nat (calculatePadding n etm) :: byte) = calculatePadding n etm"
  using calculatePadding_le [of n etm] by (simp add: unat_of_nat)

lemma pad_aligned: "(9 + n + (16 - (9 + n) mod 16) mod 16) mod 16 = 0" for n :: nat
proof (cases "(9 + n) mod 16 = 0")
  case True
  then show ?thesis by simp
next
  case False
  define m where "m = (9 + n) mod 16"
  have m: "0 < m" "m < 16" using False by (simp_all add: m_def)
  define q where "q = (9 + n) div 16"
  have d: "9 + n = 16 * q + m" by (simp add: m_def q_def)
  have "m + (16 - m) = 16" using m by simp
  then have "9 + n + (16 - m) = 16 * q + 16" using d by simp
  then have "(9 + n + (16 - m)) mod 16 = (16 * q + 16) mod 16" by (rule arg_cong)
  then have "(9 + n + (16 - m)) mod 16 = 0" by simp
  moreover have "(16 - m) mod 16 = 16 - m" using m by simp
  ultimately show ?thesis by (simp add: m_def [symmetric])
qed

lemma length_buildPacket_mte:
  "length (buildPacket rnd p False) = 9 + length p + (16 - (9 + length p) mod 16) mod 16"
  by (simp add: length_buildPacket calculatePadding_def MIN_PADDING_def AES_BLOCK_SIZE_def)

lemma buildPacket_mte_ge16: "16 \<le> length (buildPacket rnd p False)"
proof -
  have "0 < length (buildPacket rnd p False)" by (simp add: length_buildPacket)
  moreover have "16 dvd length (buildPacket rnd p False)"
    using pad_aligned [of "length p"]
    by (simp only: length_buildPacket_mte mod_eq_0_iff_dvd)
  ultimately show ?thesis by (rule dvd_imp_le [rotated])
qed

lemma getUint32_take4: "getUint32 (take 4 xs) = getUint32 (subarray xs 0 4)"
  by (simp add: subarray_def)

lemma getUint32_buildPacket:
  assumes "1 + length p + calculatePadding (length p) etm \<le> MAX_PACKET_SIZE"
  shows "getUint32 (take 4 (buildPacket rnd p etm)) = 1 + length p + calculatePadding (length p) etm"
proof -
  have "1 + length p + calculatePadding (length p) etm < 4294967296"
    using assms by (simp add: MAX_PACKET_SIZE_def)
  then show ?thesis by (simp add: buildPacket_take4 getUint32_writeUint32)
qed

lemma encrypt_mte:
  "\<not> macEtm c \<Longrightarrow> ciphertext (fst (encrypt env rnd c p)) =
     fst (encryptAES128CTR env (keyEnc c) (ivEnc c) (buildPacket rnd p False))
     @ computeHMACSHA256 env (macC c) (writeUint32 (seqOut c) @ buildPacket rnd p False)"
  by (simp add: encrypt_def Let_def)

lemma encrypt_etm:
  "macEtm c \<Longrightarrow> ciphertext (fst (encrypt env rnd c p)) =
     take 4 (buildPacket rnd p True)
     @ fst (encryptAES128CTR env (keyEnc c) (ivEnc c) (drop 4 (buildPacket rnd p True)))
     @ computeHMACSHA256 env (macC c)
         (writeUint32 (seqOut c) @ take 4 (buildPacket rnd p True)
            @ fst (encryptAES128CTR env (keyEnc c) (ivEnc c) (drop 4 (buildPacket rnd p True))))"
  by (simp add: encrypt_def Let_def subarray_def)

lemma mte_first_block:
  assumes "16 \<le> length raw"
  shows "decryptAES128CTR env key iv
           (subarray (fst (encryptAES128CTR env key iv raw) @ tl2) 0 AES_BLOCK_SIZE)
         = (take 16 raw, incrementCounter iv 1)"
proof -
  have ne: "raw \<noteq> []" "take 16 raw \<noteq> []" using assms by auto
  have ct: "fst (ctrLoop env key iv raw) =
      ctrBlock env key iv (take 16 raw) @ fst (ctrLoop env key (incrementCounter iv 1) (drop 16 raw))"
    using ne by (simp add: ctrLoop_step del: One_nat_def)
  have l: "length (ctrBlock env key iv (take 16 raw)) = 16" using assms by simp
  have s: "subarray (fst (encryptAES128CTR env key iv raw) @ tl2) 0 AES_BLOCK_SIZE
             = ctrBlock env key iv (take 16 raw)"
    using l by (simp add: subarray_def AES_BLOCK_SIZE_def encryptAES128CTR_def ct)
  have b: "ctrBlock env key iv (take 16 raw) \<noteq> []"
    using l by (metis length_0_conv zero_neq_numeral)
  show ?thesis
    unfolding s decryptAES128CTR_def
    using l b by (simp add: ctrLoop_first_block ctrBlock_involution del: One_nat_def)
qed

lemma mte_rest:
  assumes "16 < length raw" "n = length raw"
  shows "fst (decryptAES128CTR env key (incrementCounter iv 1)
           (subarray (fst (encryptAES128CTR env key iv raw) @ tl2) AES_BLOCK_SIZE n))
         = drop 16 raw"
proof -
  have ne: "raw \<noteq> []" using assms by auto
  have ct: "fst (ctrLoop env key iv raw) =
      ctrBlock env key iv (take 16 raw) @ fst (ctrLoop env key (incrementCounter iv 1) (drop 16 raw))"
    using ne by (simp add: ctrLoop_step del: One_nat_def)
  have l: "length (ctrBlock env key iv (take 16 raw)) = 16" using assms by simp
  have s: "subarray (fst (encryptAES128CTR env key iv raw) @ tl2) AES_BLOCK_SIZE n
             = fst (ctrLoop env key (incrementCounter iv 1) (drop 16 raw))"
    using l assms by (simp add: subarray_def AES_BLOCK_SIZE_def encryptAES128CTR_def ct)
  show ?thesis
    unfolding s decryptAES128CTR_def by (rule ctrLoop_involution)
qed

text \<open>
  What the MtE receiver computes on the encryption of an arbitrary plaintext packet
  \<open>raw\<close> of at least one block whose length field agrees with its length, followed by 32
  more bytes.
\<close>

lemma mte_packetLengthField:
  assumes "\<not> macEtm d" "16 \<le> length raw"
  shows "packetLengthField env d
           (fst (encryptAES128CTR env (keyDec d) (ivDec d) raw) @ tl2)
         = getUint32 (take 4 raw)"
proof -
  have t: "subarray (take 16 raw) 0 4 = take 4 raw"
    by (simp add: subarray_def)
  show ?thesis
    using assms(1)
    by (simp add: packetLengthField_def mte_first_block [OF assms(2)] t)
qed

lemma mte_decryptedPacket:
  assumes "\<not> macEtm d" "16 \<le> length raw" "length raw = 4 + getUint32 (take 4 raw)"
  shows "decryptedPacket env d
           (fst (encryptAES128CTR env (keyDec d) (ivDec d) raw) @ tl2)
         = raw"
proof -
  note g = assms(2)
  note l = assms(3)
  show ?thesis
  proof (cases "length raw \<le> 16")
    case True
    then have e: "length raw = 16" using g by simp
    have s: "subarray (take 16 raw) 0 (4 + getUint32 (take 4 raw)) = raw"
      using e l by (simp add: subarray_def)
    have a: "4 + getUint32 (take 4 raw) \<le> AES_BLOCK_SIZE"
      using True l by (simp add: AES_BLOCK_SIZE_def)
    show ?thesis
      using assms(1) a
      by (simp only: decryptedPacket_def mte_packetLengthField [OF assms(1,2)] mte_first_block [OF g]
            Let_def s fst_conv if_True if_False)
  next
    case False
    then have b: "16 < length raw" by simp
    have r: "fst (decryptAES128CTR env (keyDec d) (incrementCounter (ivDec d) 1)
               (subarray (fst (encryptAES128CTR env (keyDec d) (ivDec d) raw) @ tl2) AES_BLOCK_SIZE
                  (4 + getUint32 (take 4 raw)))) = drop 16 raw"
      by (rule mte_rest [OF b l [symmetric]])
    have a: "\<not> 4 + getUint32 (take 4 raw) \<le> AES_BLOCK_SIZE"
      using False l by (simp add: AES_BLOCK_SIZE_def)
    show ?thesis
      using assms(1) a
      by (simp only: decryptedPacket_def mte_packetLengthField [OF assms(1,2)] mte_first_block [OF g]
            Let_def r fst_conv snd_conv if_True if_False append_take_drop_id)
  qed
qed

lemma mte_expectedMac:
  assumes "\<not> macEtm d" "16 \<le> length raw" "length raw = 4 + getUint32 (take 4 raw)"
  shows "expectedMac env d (fst (encryptAES128CTR env (keyDec d) (ivDec d) raw) @ tl2)
         = computeHMACSHA256 env (macS d) (writeUint32 (seqIn d) @ raw)"
  using assms(1) by (simp add: expectedMac_def mte_decryptedPacket [OF assms])

lemma mte_receivedMac:
  assumes "\<not> macEtm d" "16 \<le> length raw" "length raw = 4 + getUint32 (take 4 raw)"
    "length tl2 = HMAC_SHA256_SIZE"
  shows "receivedMac env d
           (fst (encryptAES128CTR env (keyDec d) (ivDec d) raw) @ tl2)
         = tl2"
  using assms(4) assms(3) [symmetric]
  by (simp add: receivedMac_def mte_packetLengthField [OF assms(1,2)] subarray_def)

lemma mte_not_short:
  assumes "\<not> macEtm d" "16 \<le> length raw" "length raw = 4 + getUint32 (take 4 raw)"
    "length tl2 = HMAC_SHA256_SIZE"
  shows "\<not> bufferTooShort env d
           (fst (encryptAES128CTR env (keyDec d) (ivDec d) raw) @ tl2)"
  using assms(1,2,4) assms(3) [symmetric]
  by (simp add: bufferTooShort_def mte_packetLengthField [OF assms(1,2)] AES_BLOCK_SIZE_def)

lemma mte_paddingLengthField:
  assumes "\<not> macEtm d" "16 \<le> length raw" "length raw = 4 + getUint32 (take 4 raw)"
  shows "paddingLengthField env d
           (fst (encryptAES128CTR env (keyDec d) (ivDec d) raw) @ tl2)
         = unat (raw ! 4)"
  by (simp add: paddingLengthField_def mte_decryptedPacket [OF assms])

lemma mte_mismatch:
  assumes "\<not> macEtm d" "16 \<le> length raw" "length raw = 4 + getUint32 (take 4 raw)"
    "5 \<le> getUint32 (take 4 raw)" "getUint32 (take 4 raw) \<le> MAX_PACKET_SIZE"
    "4 \<le> unat (raw ! 4)" "unat (raw ! 4) \<le> getUint32 (take 4 raw) - 1"
    "length tl2 = HMAC_SHA256_SIZE"
    "tl2 \<noteq> computeHMACSHA256 env (macS d) (writeUint32 (seqIn d) @ raw)"
  shows "decrypt env d (fst (encryptAES128CTR env (keyDec d) (ivDec d) raw) @ tl2)
         = (Inl (MacVerificationError ''MAC verification failed''), d)"
proof -
  note m = assms(1)
  note r = assms(1,2,3)
  let ?data = "fst (encryptAES128CTR env (keyDec d) (ivDec d) raw) @ tl2"
  have "decryptStandard env d ?data = (Inl (MacVerificationError ''MAC verification failed''), d)"
  proof (rule decryptStandard_mac_mismatch [OF m])
    show "\<not> bufferTooShort env d ?data" by (rule mte_not_short [OF r assms(8)])
    show "5 \<le> packetLengthField env d ?data"
      using assms(4) by (simp add: mte_packetLengthField [OF assms(1,2)])
    show "packetLengthField env d ?data \<le> MAX_PACKET_SIZE"
      using assms(5) by (simp add: mte_packetLengthField [OF assms(1,2)])
    show "4 \<le> paddingLengthField env d ?data"
      using assms(6) by (simp add: mte_paddingLengthField [OF r])
    show "paddingLengthField env d ?data \<le> packetLengthField env d ?data - 1"
      using assms(7) by (simp add: mte_paddingLengthField [OF r] mte_packetLengthField [OF assms(1,2)])
    show "receivedMac env d ?data \<noteq> expectedMac env d ?data"
      using assms(9) by (simp add: mte_receivedMac [OF r assms(8)] mte_expectedMac [OF r])
  qed
  then show ?thesis using m by (simp add: decrypt_def)
qed

text \<open>
  What the ETM receiver computes on a clear length field \<open>hdr\<close>, followed by as many
  bytes as it announces and by 32 more bytes.
\<close>

lemma etm_fields:
  assumes "macEtm d" "length hdr = 4" "length ct = getUint32 hdr" "length tl2 = HMAC_SHA256_SIZE"
  shows "packetLengthField env d (hdr @ ct @ tl2) = getUint32 hdr"
    and "receivedMac env d (hdr @ ct @ tl2) = tl2"
    and "expectedMac env d (hdr @ ct @ tl2)
           = computeHMACSHA256 env (macS d) (writeUint32 (seqIn d) @ hdr @ ct)"
    and "\<not> bufferTooShort env d (hdr @ ct @ tl2)"
proof -
  have s4: "subarray (hdr @ ct @ tl2) 0 4 = hdr" using assms(2) by (simp add: subarray_def)
  show p: "packetLengthField env d (hdr @ ct @ tl2) = getUint32 hdr"
    using assms(1) by (simp only: packetLengthField_def s4 if_True)
  have sc: "subarray (hdr @ ct @ tl2) 4 (4 + getUint32 hdr) = ct"
    using assms(2,3) by (simp add: subarray_def)
  have sm: "subarray (hdr @ ct @ tl2) (4 + getUint32 hdr) (4 + getUint32 hdr + HMAC_SHA256_SIZE) = tl2"
    using assms(2,3,4) by (simp add: subarray_def)
  have ld: "length (hdr @ ct @ tl2) = 4 + getUint32 hdr + HMAC_SHA256_SIZE"
    using assms(2,3,4) by simp
  show "receivedMac env d (hdr @ ct @ tl2) = tl2"
    by (simp only: receivedMac_def p Let_def sm)
  show "expectedMac env d (hdr @ ct @ tl2)
           = computeHMACSHA256 env (macS d) (writeUint32 (seqIn d) @ hdr @ ct)"
    using assms(1) by (simp only: expectedMac_def p s4 sc if_True)
  show "\<not> bufferTooShort env d (hdr @ ct @ tl2)"
    using assms(1) by (simp only: bufferTooShort_def p ld if_True) simp
qed

lemma etm_mismatch:
  assumes "macEtm d" "length hdr = 4" "length ct = getUint32 hdr" "length tl2 = HMAC_SHA256_SIZE"
    "5 \<le> getUint32 hdr" "getUint32 hdr \<le> MAX_PACKET_SIZE"
    "tl2 \<noteq> computeHMACSHA256 env (macS d) (writeUint32 (seqIn d) @ hdr @ ct)"
  shows "decrypt env d (hdr @ ct @ tl2)
         = (Inl (MacVerificationError ''MAC verification failed (EtM mode)''), d)"
proof -
  note f = etm_fields [OF assms(1,2,3,4), of env]
  have "decryptEtm env d (hdr @ ct @ tl2)
          = (Inl (MacVerificationError ''MAC verification failed (EtM mode)''), d)"
  proof (rule decryptEtm_mac_mismatch [OF assms(1)])
    show "\<not> bufferTooShort env d (hdr @ ct @ tl2)" by (rule f(4))
    show "5 \<le> packetLengthField env d (hdr @ ct @ tl2)" using assms(5) by (simp only: f(1))
    show "packetLengthField env d (hdr @ ct @ tl2) \<le> MAX_PACKET_SIZE"
      using assms(6) by (simp only: f(1))
    show "receivedMac env d (hdr @ ct @ tl2) \<noteq> expectedMac env d (hdr @ ct @ tl2)"
      unfolding f(2) f(3) by (rule assms(7))
  qed
  then show ?thesis using assms(1) by (simp add: decrypt_def)
qed


lemma flipBit_length [simp]: "length (flipBit xs i) = length xs"
  by (simp add: flipBit_def)

lemma flip_byte_neq: "k < 8 \<Longrightarrow> (x XOR push_bit k 1) \<noteq> x" for x :: byte
proof
  assume k: "k < 8" and e: "x XOR push_bit k 1 = x"
  have "push_bit k (1 :: byte) = (x XOR x) XOR push_bit k 1" by simp
  also have "\<dots> = x XOR (x XOR push_bit k 1)" by (simp only: xor.assoc)
  also have "\<dots> = 0" using e by simp
  finally have z: "push_bit k (1 :: byte) = 0" .
  have "bit (push_bit k (1 :: byte)) k" using k by (simp add: bit_simps)
  then have "bit (0 :: byte) k" unfolding z .
  then show False by simp
qed

lemma flipBit_neq: "i < 8 * length xs \<Longrightarrow> flipBit xs i \<noteq> xs"
proof
  assume i: "i < 8 * length xs" and e: "flipBit xs i = xs"
  have d: "i div 8 < length xs" using i by (simp add: less_mult_imp_div_less mult.commute)
  have "flipBit xs i ! (i div 8) = (xs ! (i div 8)) XOR push_bit (i mod 8) 1"
    using d by (simp add: flipBit_def)
  then show False using e flip_byte_neq [of "i mod 8" "xs ! (i div 8)"] by simp
qed

lemma flipBit_append_right:
  "8 * length xs \<le> i \<Longrightarrow> flipBit (xs @ ys) i = xs @ flipBit ys (i - 8 * length xs)"
proof -
  assume h: "8 * length xs \<le> i"
  then have d: "length xs \<le> i div 8" by (simp add: less_eq_div_iff_mult_less_eq mult.commute)
  have e: "(i - 8 * length xs) div 8 = i div 8 - length xs"
    by (metis div_mult_self1 h le_add_diff_inverse2 add_diff_cancel_right' mult.commute zero_neq_numeral add.commute)
  have f: "(i - 8 * length xs) mod 8 = i mod 8"
    using h by (metis le_add_diff_inverse2 mod_mult_self4 add.commute)
  show ?thesis
    using d by (simp add: flipBit_def list_update_append nth_append e f)
qed

lemma flipBit_Nil [simp]: "flipBit [] i = []"
  by (simp add: flipBit_def)

lemma flipBit_append_left:
  "i < 8 * length xs \<Longrightarrow> flipBit (xs @ ys) i = flipBit xs i @ ys"
proof -
  assume "i < 8 * length xs"
  then have d: "i div 8 < length xs" by (simp add: less_mult_imp_div_less mult.commute)
  then show ?thesis by (simp add: flipBit_def list_update_append nth_append)
qed

lemma flipBit_take: "8 * n \<le> i \<Longrightarrow> take n (flipBit xs i) = take n xs"
proof -
  assume "8 * n \<le> i"
  then have "n \<le> i div 8" by (simp add: less_eq_div_iff_mult_less_eq mult.commute)
  then show ?thesis by (simp add: flipBit_def)
qed

lemma flipBit_nth: "i div 8 \<noteq> j \<Longrightarrow> flipBit xs i ! j = xs ! j"
  by (simp add: flipBit_def)

text \<open>
  Counter mode is malleable: a flipped bit of the input is the same flipped bit of the
  output, whatever the keystream is.
\<close>

lemma ctrBlock_flip:
  "ctrBlock env key counter (flipBit blk i) = flipBit (ctrBlock env key counter blk) i"
proof (rule nth_equalityI)
  show "length (ctrBlock env key counter (flipBit blk i))
          = length (flipBit (ctrBlock env key counter blk) i)" by simp
next
  fix j assume "j < length (ctrBlock env key counter (flipBit blk i))"
  then have j: "j < length blk" by simp
  show "ctrBlock env key counter (flipBit blk i) ! j = flipBit (ctrBlock env key counter blk) i ! j"
  proof (cases "i div 8 = j")
    case True
    then show ?thesis using j
      by (simp add: nth_ctrBlock flipBit_def xor.assoc xor.commute xor.left_commute)
  next
    case False
    then show ?thesis using j by (simp add: nth_ctrBlock flipBit_nth)
  qed
qed

lemma ctrLoop_flip:
  "fst (ctrLoop env key iv (flipBit dat i)) = flipBit (fst (ctrLoop env key iv dat)) i"
proof (induction env key iv dat arbitrary: i rule: ctrLoop.induct)
  case (1 env key ivCopy dat)
  show ?case
  proof (cases "dat = []")
    case True
    then show ?thesis by simp
  next
    case False
    define X where "X = take 16 dat"
    define Y where "Y = drop 16 dat"
    define iv2 where "iv2 = incrementCounter ivCopy 1"
    define A where "A = ctrBlock env key ivCopy X"
    define B where "B = fst (ctrLoop env key iv2 Y)"
    have dat: "dat = X @ Y" by (simp add: X_def Y_def)
    have lX: "length X = min (length dat) 16" by (simp add: X_def)
    have Y0: "length dat < 16 \<Longrightarrow> Y = []" by (simp add: Y_def)
    have lA: "length A = length X" by (simp add: A_def)
    have e: "fst (ctrLoop env key ivCopy dat) = A @ B"
      using False by (simp add: ctrLoop_step A_def B_def X_def Y_def iv2_def del: One_nat_def)
    have ih: "fst (ctrLoop env key iv2 (flipBit Y j)) = flipBit B j" for j
      using 1 [OF False refl refl, of j] by (simp add: B_def Y_def iv2_def del: One_nat_def)
    have split: "fst (ctrLoop env key ivCopy (X' @ Y'))
                   = ctrBlock env key ivCopy X' @ fst (ctrLoop env key iv2 Y')"
      if "length X' = length X" "length dat < 16 \<Longrightarrow> Y' = []" for X' Y'
    proof -
      have "0 < length X" using \<open>dat \<noteq> []\<close> by (simp add: lX)
      then have ne: "X' @ Y' \<noteq> []" using that(1) by auto
      have t: "take 16 (X' @ Y') = X'" using that lX by (cases "length dat < 16") simp_all
      have d: "drop 16 (X' @ Y') = Y'" using that lX by (cases "length dat < 16") simp_all
      show ?thesis
        using ne by (simp add: ctrLoop_step t d iv2_def del: One_nat_def take_append drop_append)
    qed
    show ?thesis
    proof (cases "i < 8 * length X")
      case True
      have "fst (ctrLoop env key ivCopy (flipBit dat i))
              = fst (ctrLoop env key ivCopy (flipBit X i @ Y))"
        by (simp only: dat flipBit_append_left [OF True])
      also have "\<dots> = ctrBlock env key ivCopy (flipBit X i) @ fst (ctrLoop env key iv2 Y)"
        by (rule split) (simp_all add: Y0)
      also have "\<dots> = flipBit A i @ B" by (simp add: ctrBlock_flip A_def B_def)
      also have "\<dots> = flipBit (A @ B) i"
        using True by (simp add: flipBit_append_left lA)
      finally show ?thesis by (simp add: e)
    next
      case False
      then have g: "8 * length X \<le> i" by simp
      have "fst (ctrLoop env key ivCopy (flipBit dat i))
              = fst (ctrLoop env key ivCopy (X @ flipBit Y (i - 8 * length X)))"
        by (simp only: dat flipBit_append_right [OF g])
      also have "\<dots> = ctrBlock env key ivCopy X @ fst (ctrLoop env key iv2 (flipBit Y (i - 8 * length X)))"
        by (rule split) (simp_all add: Y0)
      also have "\<dots> = A @ flipBit B (i - 8 * length A)" by (simp add: ih A_def)
      also have "\<dots> = flipBit (A @ B) i"
        using g by (simp add: flipBit_append_right lA)
      finally show ?thesis by (simp add: e)
    qed
  qed
qed


section \<open>What the dispatch leaves alone\<close>


lemma encryptedBuf_setFatal [simp]: "encryptedBuf (setFatal cfg s msg) = encryptedBuf s"
  by (simp add: setFatal_def)

lemma encryptedBuf_send [simp]: "encryptedBuf (send s d) = encryptedBuf s"
  by (simp add: send_def)

lemma encryptedBuf_dropRandom [simp]: "encryptedBuf (dropRandom n s) = encryptedBuf s"
  by (simp add: dropRandom_def)

lemma encryptedBuf_sendPacket [simp]: "encryptedBuf (sendPacket s pl) = encryptedBuf s"
  by (simp add: sendPacket_def)

lemma encryptedBuf_sendEncrypted [simp]: "encryptedBuf (sendEncrypted env s pl) = encryptedBuf s"
  by (simp add: sendEncrypted_def Let_def split: option.splits)

lemma encryptedBuf_flushBuf [simp]: "encryptedBuf (flushBuf s) = encryptedBuf s"
  by (simp add: flushBuf_def)

lemma encryptedBuf_startKex [simp]:
  "encryptedBuf (startKex env cfg s l) = encryptedBuf s"
  by (simp add: startKex_def Let_def)

lemma encryptedBuf_handleKexInit [simp]:
  "encryptedBuf (handleKexInit env cfg s p) = encryptedBuf s"
  by (simp add: handleKexInit_def Let_def split: option.splits prod.splits)

lemma encryptedBuf_installKeys [simp]:
  "encryptedBuf (installKeys env s h k) = encryptedBuf s"
  by (simp add: installKeys_def Let_def)

lemma encryptedBuf_handleKexDhReply [simp]:
  "encryptedBuf (handleKexDhReply env cfg s p) = encryptedBuf s"
  by (simp add: handleKexDhReply_def Let_def split: option.splits prod.splits)

lemma encryptedBuf_handleKexEcdhReply [simp]:
  "encryptedBuf (handleKexEcdhReply env cfg s p) = encryptedBuf s"
  by (simp add: handleKexEcdhReply_def Let_def split: option.splits prod.splits)

lemma encryptedBuf_sendAuthRequest [simp]:
  "encryptedBuf (fst (sendAuthRequest env cfg s)) = encryptedBuf s"
  by (simp add: sendAuthRequest_def Let_def resolved_def rejected_def split: option.splits)

lemma encryptedBuf_handleChannelOpenConfirmation [simp]:
  "encryptedBuf (fst (handleChannelOpenConfirmation env cfg s p r)) = encryptedBuf s"
  by (simp add: handleChannelOpenConfirmation_def Let_def resolved_def rejected_def)

lemma encryptedBuf_handleChannelReply [simp]:
  "encryptedBuf (handleChannelReply env cfg s m) = encryptedBuf s"
  by (simp add: handleChannelReply_def Let_def)

lemma encryptedBuf_handleChannelData [simp]:
  "encryptedBuf (handleChannelData env s p off) = encryptedBuf s"
  by (simp add: handleChannelData_def Let_def split: option.splits prod.splits)

lemma encryptedBuf_handleDisconnect [simp]:
  "encryptedBuf (handleDisconnect cfg s p) = encryptedBuf s"
  by (simp add: handleDisconnect_def Let_def)

lemma encryptedBuf_handleGlobalRequest [simp]:
  "encryptedBuf (handleGlobalRequest env s p) = encryptedBuf s"
  by (simp add: handleGlobalRequest_def Let_def split: option.splits prod.splits)

lemma encryptedBuf_handleNewKeys [simp]:
  "encryptedBuf (handleNewKeys env s) = encryptedBuf s"
  by (simp add: handleNewKeys_def)

lemma encryptedBuf_handleUserauthFailure [simp]:
  "encryptedBuf (handleUserauthFailure cfg s p) = encryptedBuf s"
  by (simp add: handleUserauthFailure_def Let_def)

lemma encryptedBuf_handleUserauthSuccess [simp]:
  "encryptedBuf (handleUserauthSuccess env s) = encryptedBuf s"
  by (simp add: handleUserauthSuccess_def)


section \<open>The receive loops of the orchestrator\<close>






text \<open>
  \<open>handleRawData\<close> on a chunk \<open>d\<close>. After the trap nothing is done. As long as the
  server version is not known the chunk first goes through the version-line stage
  (\<open>identStage\<close>): \<open>extractServerIdent\<close> either keeps the bytes for later and ends the
  call, or records the version and gives back the bytes behind the version line, which
  are then handled as protocol data like a chunk that arrives when the version is known.
\<close>

definition identStage :: "Orchestrator \<Rightarrow> bytes \<Rightarrow> Orchestrator \<times> bytes option" where
  "identStage s d =
     (if serverIdent (connState s) = [] then extractServerIdent s d else (s, Some d))"




section \<open>Vocabulary for the claim about the version line\<close>

text \<open>
  A sequence of chunks fed to the version-line stage one after the other, as successive
  calls of \<open>handleRawData\<close> do: the state after the last chunk, and all the bytes
  that the stage has passed on as protocol data, in order.
\<close>

fun feedChunks :: "Orchestrator \<Rightarrow> bytes list \<Rightarrow> Orchestrator \<times> bytes" where
  "feedChunks s [] = (s, [])"
| "feedChunks s (d # ds) =
     (case identStage s d of
        (s1, None) \<Rightarrow> feedChunks s1 ds
      | (s1, Some d1) \<Rightarrow> (fst (feedChunks s1 ds), d1 @ snd (feedChunks s1 ds)))"

lemmas example_defs = exampleCrypto_def exampleCipher_def createTransportCipher_def
  exampleIv_def exampleKey_def exampleMacKey_def

lemmas constant_defs = HMAC_SHA256_SIZE_def AES_BLOCK_SIZE_def MAX_PACKET_SIZE_def MIN_PADDING_def

text \<open>
  Claim C1, as stated, fails for a \<open>packet_length\<close> outside \<open>[5, MAX_PACKET_SIZE]\<close>:
  both decrypt paths answer it with \<open>return null\<close>, not with an error. In ETM mode,
  on 36 zero bytes the length field reads 0, the buffer holds the whole of what a packet
  of that length would need (4 + 0 + 32 bytes), and the call returns NeedMore.
\<close>

theorem decrypt_bad_length_counterexample:
  "packetLengthField exampleCrypto (exampleCipher True) (replicate 36 0) = 0
   \<and> length (replicate 36 (0 :: byte)) = 4 + 0 + HMAC_SHA256_SIZE
   \<and> \<not> bufferTooShort exampleCrypto (exampleCipher True) (replicate 36 0)
   \<and> decrypt exampleCrypto (exampleCipher True) (replicate 36 0)
        = (Inr None, exampleCipher True)"
  by (simp add: decrypt_def decryptEtm_def bufferTooShort_def packetLengthField_def
        example_defs constant_defs subarray_def getUint32_def)

text \<open>
  Claim C1, amended. In either MAC mode a decrypt call returns NeedMore (null) exactly
  when the buffer is too short (shorter than the fixed minimum, or shorter than
  \<open>4 + packet_length + 32\<close>) or the \<open>packet_length\<close> it reads lies outside
  \<open>[5, MAX_PACKET_SIZE]\<close>. When the buffer is long enough and the length is in range,
  a MAC mismatch or a padding length below 4 or above \<open>packet_length - 1\<close> raises a
  \<open>MacVerificationError\<close> or a \<open>ProtocolError\<close>, and the cipher state is the one
  before the call.
\<close>

theorem decrypt_outcomes:
  "(fst (decrypt env c data) = Inr None \<longleftrightarrow>
      bufferTooShort env c data \<or> packetLengthField env c data < 5
        \<or> MAX_PACKET_SIZE < packetLengthField env c data)
   \<and> (\<not> bufferTooShort env c data \<and> 5 \<le> packetLengthField env c data
        \<and> packetLengthField env c data \<le> MAX_PACKET_SIZE
        \<and> (receivedMac env c data \<noteq> expectedMac env c data
             \<or> paddingLengthField env c data < 4
             \<or> packetLengthField env c data - 1 < paddingLengthField env c data)
       \<longrightarrow> (\<exists>msg. decrypt env c data = (Inl (MacVerificationError msg), c)
                  \<or> decrypt env c data = (Inl (ProtocolError msg), c)))"
proof (cases "macEtm c")
  case True
  then show ?thesis
    using decryptEtm_None_iff [of c env data] decryptEtm_errors [of c env data]
    by (simp add: decrypt_def)
next
  case False
  then show ?thesis
    using decryptStandard_None_iff [of c env data] decryptStandard_errors [of c env data]
    by (simp add: decrypt_def)
qed

theorem decrypt_outcomes_witness:
  "\<not> bufferTooShort exampleCrypto (exampleCipher False) exampleTamperedPacket
   \<and> packetLengthField exampleCrypto (exampleCipher False) exampleTamperedPacket = 12
   \<and> paddingLengthField exampleCrypto (exampleCipher False) exampleTamperedPacket = 2
   \<and> (\<exists>msg. decrypt exampleCrypto (exampleCipher False) exampleTamperedPacket
        = (Inl (MacVerificationError msg), exampleCipher False)
       \<or> decrypt exampleCrypto (exampleCipher False) exampleTamperedPacket
        = (Inl (ProtocolError msg), exampleCipher False))
   \<and> decrypt exampleCrypto (exampleCipher False) exampleTamperedPacket
        = (Inl (ProtocolError ''Invalid padding length: 2 (seq=0)''), exampleCipher False)"
proof -
  let ?d = "exampleTamperedPacket"
  have p: "packetLengthField exampleCrypto (exampleCipher False) ?d = 12"
    by (simp add: packetLengthField_def example_defs constant_defs subarray_def getUint32_def
          decryptAES128CTR_def ctrLoop_step ctrBlock_def exampleTamperedPacket_def)
  have l: "length ?d = 48" by (simp add: exampleTamperedPacket_def)
  have b: "\<not> bufferTooShort exampleCrypto (exampleCipher False) ?d"
    by (simp add: bufferTooShort_def p l) (simp add: example_defs constant_defs)
  have q: "paddingLengthField exampleCrypto (exampleCipher False) ?d = 2"
    by (simp add: paddingLengthField_def decryptedPacket_def p)
       (simp add: example_defs constant_defs subarray_def exampleTamperedPacket_def
          decryptAES128CTR_def ctrLoop_step ctrBlock_def)
  have e: "decrypt exampleCrypto (exampleCipher False) ?d
        = (Inl (ProtocolError ''Invalid padding length: 2 (seq=0)''), exampleCipher False)"
    by (simp add: decrypt_def decryptStandard_def example_defs constant_defs subarray_def
          getUint32_def decryptAES128CTR_def ctrLoop_step ctrBlock_def showNat_def
          decDigits.simps exampleTamperedPacket_def)
  have x: "\<exists>msg. decrypt exampleCrypto (exampleCipher False) ?d
        = (Inl (MacVerificationError msg), exampleCipher False)
       \<or> decrypt exampleCrypto (exampleCipher False) ?d
        = (Inl (ProtocolError msg), exampleCipher False)"
    using decrypt_outcomes [of exampleCrypto "exampleCipher False" ?d] p b q
    by (simp add: MAX_PACKET_SIZE_def)
  show ?thesis using p b q e x by blast
qed

text \<open>
  Claim C5. In either MAC mode, a decrypt call that returns NeedMore (null) leaves the
  whole cipher state, and so \<open>seqIn\<close> and \<open>ivDec\<close>, as it was; and a call after which
  \<open>seqIn\<close> differs from before is a call that returned a packet, with the MAC verified,
  and has incremented \<open>seqIn\<close> by exactly one.
\<close>

theorem decrypt_needMore_unchanged:
  "(fst (decrypt env c data) = Inr None \<longrightarrow>
      snd (decrypt env c data) = c
      \<and> seqIn (snd (decrypt env c data)) = seqIn c
      \<and> ivDec (snd (decrypt env c data)) = ivDec c)
   \<and> (seqIn (snd (decrypt env c data)) \<noteq> seqIn c \<longrightarrow>
        (\<exists>r. fst (decrypt env c data) = Inr (Some r))
        \<and> receivedMac env c data = expectedMac env c data
        \<and> seqIn (snd (decrypt env c data)) = seqIn c + 1)"
proof (cases "macEtm c")
  case True
  then show ?thesis
    using decryptEtm_unchanged [of env c data] decryptEtm_state [of env c data]
      decryptEtm_success [of c env data]
    by (auto simp add: decrypt_def)
next
  case False
  then show ?thesis
    using decryptStandard_unchanged [of env c data] decryptStandard_state [of env c data]
      decryptStandard_success [of c env data]
    by (auto simp add: decrypt_def)
qed

theorem decrypt_needMore_unchanged_witness:
  "fst (decrypt exampleCrypto (exampleCipher False) (replicate 10 0)) = Inr None
   \<and> snd (decrypt exampleCrypto (exampleCipher False) (replicate 10 0)) = exampleCipher False
   \<and> seqIn (snd (decrypt exampleCrypto (exampleCipher False) examplePacket)) = 1
   \<and> (\<exists>r. fst (decrypt exampleCrypto (exampleCipher False) examplePacket) = Inr (Some r))"
proof -
  have n: "fst (decrypt exampleCrypto (exampleCipher False) (replicate 10 0)) = Inr None"
    by (simp add: decrypt_def decryptStandard_def example_defs constant_defs)
  have s: "seqIn (snd (decrypt exampleCrypto (exampleCipher False) examplePacket)) = 1"
    by (simp add: decrypt_def decryptStandard_def example_defs constant_defs subarray_def
          getUint32_def decryptAES128CTR_def ctrLoop_step ctrBlock_def writeUint32_def
          computeHMACSHA256_def constantTimeEqual_iff examplePacket_def)
  have z: "seqIn (exampleCipher False) = 0" by (simp add: example_defs)
  show ?thesis
    using decrypt_needMore_unchanged [of exampleCrypto "exampleCipher False" "replicate 10 0"]
      decrypt_needMore_unchanged [of exampleCrypto "exampleCipher False" examplePacket] n s z
    by simp
qed
lemma example_encrypt:
  "ciphertext (fst (encrypt exampleCrypto (\<lambda>i. 9) (exampleCipher False) [21])) = examplePacket"
  by (simp add: encrypt_def example_defs constant_defs buildPacket_def calculatePadding_def
        writeUint32_def encryptAES128CTR_def ctrLoop_step ctrBlock_def computeHMACSHA256_def
        incrementCounter_def examplePacket_def upt_rec [of 0] upt_rec [of 1]
        One_nat_def [symmetric] del: One_nat_def)

lemma example_mirror: "mirror (exampleCipher etm) (exampleCipher etm)"
  by (simp add: mirror_def example_defs)

lemma take1: "take 1 (x # xs) = [x]" by simp

lemma example_encrypt_etm:
  "ciphertext (fst (encrypt exampleCrypto (\<lambda>i. 9) (exampleCipher True) [21])) = exampleEtmPacket"
  by (simp add: encrypt_def example_defs constant_defs buildPacket_def calculatePadding_def
        writeUint32_def encryptAES128CTR_def ctrLoop_step ctrBlock_def computeHMACSHA256_def
        incrementCounter_def exampleEtmPacket_def subarray_def upt_rec [of 0] upt_rec [of 1] take1
        One_nat_def [symmetric] del: One_nat_def) simp

lemma etm_oversized:
  assumes "macEtm c" "mirror c d"
    "MAX_PACKET_SIZE < 1 + length p + calculatePadding (length p) True"
    "1 + length p + calculatePadding (length p) True < 4294967296"
    "32 \<le> i"
  shows "decrypt env d (flipBit (ciphertext (fst (encrypt env rnd c p))) i) = (Inr None, d)"
proof -
  have m: "macEtm d" using assms(1,2) by (simp add: mirror_def)
  define hdr where "hdr = take 4 (buildPacket rnd p True)"
  obtain Y where out: "ciphertext (fst (encrypt env rnd c p)) = hdr @ Y"
    using assms(1) by (simp add: encrypt_etm hdr_def)
  have lh: "length hdr = 4" by (simp add: hdr_def length_buildPacket)
  have g: "getUint32 hdr = 1 + length p + calculatePadding (length p) True"
    using assms(4) by (simp add: hdr_def buildPacket_take4 getUint32_writeUint32)
  have "8 * length hdr \<le> i" using assms(5) by (simp add: lh)
  then have f: "flipBit (hdr @ Y) i = hdr @ flipBit Y (i - 8 * length hdr)"
    by (rule flipBit_append_right)
  have s: "subarray (hdr @ flipBit Y (i - 8 * length hdr)) 0 4 = hdr"
    using lh by (simp add: subarray_def)
  show ?thesis
    unfolding out f using m assms(3)
    by (simp add: decrypt_def decryptEtm_def Let_def s g del: One_nat_def)
qed

lemma example_oversized_length:
  "length (ciphertext (fst (encrypt exampleCrypto (\<lambda>i. 9) (exampleCipher True) (replicate 35000 0))))
     = 35044"
proof -
  have e: "macEtm (exampleCipher True)" by (simp add: example_defs)
  have h: "length (computeHMACSHA256 exampleCrypto k m) = 32" for k m
    by (simp add: computeHMACSHA256_def exampleCrypto_def)
  show ?thesis
    by (simp add: encrypt_etm [OF e] h length_buildPacket)
       (simp add: calculatePadding_def constant_defs)
qed

lemma example_oversized:
  "decrypt exampleCrypto (exampleCipher True)
     (flipBit (ciphertext (fst (encrypt exampleCrypto (\<lambda>i. 9) (exampleCipher True)
        (replicate 35000 0)))) 280096)
   = (Inr None, exampleCipher True)"
proof -
  have e: "macEtm (exampleCipher True)" by (simp add: example_defs)
  show ?thesis
    by (rule etm_oversized [OF e example_mirror])
       (simp_all add: calculatePadding_def constant_defs)
qed
lemma w_mte_body: "expectedMac exampleCrypto (exampleCipher False) (flipBit examplePacket 47)
   \<noteq> expectedMac exampleCrypto (exampleCipher False) examplePacket"
    by (simp add: flipBit_def expectedMac_def decryptedPacket_def packetLengthField_def example_defs constant_defs subarray_def
          getUint32_def decryptAES128CTR_def ctrLoop_step ctrBlock_def examplePacket_def computeHMACSHA256_def writeUint32_def)

lemma w_etm_body: "expectedMac exampleCrypto (exampleCipher True) (flipBit exampleEtmPacket 40)
   \<noteq> expectedMac exampleCrypto (exampleCipher True) exampleEtmPacket"
    by (simp add: flipBit_def expectedMac_def  packetLengthField_def example_defs constant_defs subarray_def
          getUint32_def exampleEtmPacket_def computeHMACSHA256_def writeUint32_def)
lemma buildPacket_fields:
  assumes "1 + length p + calculatePadding (length p) etm \<le> MAX_PACKET_SIZE"
  shows "getUint32 (take 4 (buildPacket rnd p etm)) = 1 + length p + calculatePadding (length p) etm"
    and "length (buildPacket rnd p etm) = 4 + getUint32 (take 4 (buildPacket rnd p etm))"
    and "5 \<le> getUint32 (take 4 (buildPacket rnd p etm))"
    and "getUint32 (take 4 (buildPacket rnd p etm)) \<le> MAX_PACKET_SIZE"
    and "4 \<le> unat (buildPacket rnd p etm ! 4)"
    and "unat (buildPacket rnd p etm ! 4) \<le> getUint32 (take 4 (buildPacket rnd p etm)) - 1"
  using assms calculatePadding_ge [of "length p" etm]
  by (simp_all add: getUint32_buildPacket [OF assms] length_buildPacket buildPacket_nth4 unat_padding)

text \<open>
  Claim C2, as stated, fails in three ways. (1) In MtE mode the receiver decrypts the
  packet and checks the length and the padding length before it verifies the MAC:
  flipping bit 3 of byte 4 of the packet encrypted for the payload \<open>[21]\<close> turns the
  padding length 10 into 2, and the mirror cipher raises a \<open>ProtocolError\<close>; flipping
  the top bit of byte 0 makes the length field exceed \<open>MAX_PACKET_SIZE\<close>, and the call
  returns NeedMore. (2) In ETM mode the length field travels in the clear and is
  range-checked before the MAC: flipping the top bit of byte 0 gives NeedMore as well.
  (3) \<open>encrypt\<close> accepts a payload of any size, but the receiver answers a
  \<open>packet_length\<close> above \<open>MAX_PACKET_SIZE\<close> with NeedMore: for a payload of 35000
  bytes the packet length is 35008, and the mirror cipher returns NeedMore even when the
  flipped bit is the first bit of the MAC.
\<close>

theorem ciphertext_flip_counterexample:
  "ciphertext (fst (encrypt exampleCrypto (\<lambda>i. 9) (exampleCipher False) [21])) = examplePacket
   \<and> mirror (exampleCipher False) (exampleCipher False)
   \<and> flipBit examplePacket 35 = exampleTamperedPacket
   \<and> decrypt exampleCrypto (exampleCipher False) (flipBit examplePacket 35)
        = (Inl (ProtocolError ''Invalid padding length: 2 (seq=0)''), exampleCipher False)
   \<and> decrypt exampleCrypto (exampleCipher False) (flipBit examplePacket 7)
        = (Inr None, exampleCipher False)
   \<and> ciphertext (fst (encrypt exampleCrypto (\<lambda>i. 9) (exampleCipher True) [21])) = exampleEtmPacket
   \<and> mirror (exampleCipher True) (exampleCipher True)
   \<and> decrypt exampleCrypto (exampleCipher True) (flipBit exampleEtmPacket 7)
        = (Inr None, exampleCipher True)
   \<and> length (ciphertext (fst (encrypt exampleCrypto (\<lambda>i. 9) (exampleCipher True)
        (replicate 35000 0)))) = 35044
   \<and> decrypt exampleCrypto (exampleCipher True)
        (flipBit (ciphertext (fst (encrypt exampleCrypto (\<lambda>i. 9) (exampleCipher True)
           (replicate 35000 0)))) 280096)
        = (Inr None, exampleCipher True)"
proof -
  have f: "flipBit examplePacket 35 = exampleTamperedPacket"
    by (simp add: flipBit_def examplePacket_def exampleTamperedPacket_def)
  have e: "decrypt exampleCrypto (exampleCipher False) exampleTamperedPacket
        = (Inl (ProtocolError ''Invalid padding length: 2 (seq=0)''), exampleCipher False)"
    by (simp add: decrypt_def decryptStandard_def example_defs constant_defs subarray_def
          getUint32_def decryptAES128CTR_def ctrLoop_step ctrBlock_def showNat_def
          decDigits.simps exampleTamperedPacket_def)
  have b: "decrypt exampleCrypto (exampleCipher False) (flipBit examplePacket 7)
        = (Inr None, exampleCipher False)"
    by (simp add: flipBit_def decrypt_def decryptStandard_def example_defs constant_defs
          subarray_def getUint32_def decryptAES128CTR_def ctrLoop_step ctrBlock_def
          examplePacket_def)
  have c: "decrypt exampleCrypto (exampleCipher True) (flipBit exampleEtmPacket 7)
        = (Inr None, exampleCipher True)"
    by (simp add: flipBit_def decrypt_def decryptEtm_def example_defs constant_defs subarray_def
          getUint32_def exampleEtmPacket_def)
  show ?thesis
    using example_encrypt example_encrypt_etm example_mirror f e b c example_oversized_length
      example_oversized
    by simp
qed

text \<open>
  Claim C2, amended. Take a payload \<open>p\<close> whose packet length
  \<open>1 + |p| + padding\<close> is at most \<open>MAX_PACKET_SIZE\<close>, either MAC mode, an HMAC that
  returns 32 bytes, and a single-bit flip of the output of \<open>encrypt p\<close> behind the
  fields that the receiver checks before the MAC: any bit from bit 32 on in ETM mode
  (behind the clear length field), any bit from bit 40 on in MtE mode (behind the
  encrypted length and padding-length bytes). If the flip is in the trailing 32 MAC
  bytes, or if it is in the ciphertext and the HMAC of the tampered packet differs from
  the HMAC of the original one (no collision), then decrypting the tampered bytes with
  the mirror-configured cipher raises \<open>MacVerificationError\<close> and leaves the decrypter's
  state (\<open>seqIn\<close>, decryption IV) as it was.
\<close>

theorem mac_tamper_detected:
  assumes fit: "1 + length p + calculatePadding (length p) (macEtm c) \<le> MAX_PACKET_SIZE"
    and mir: "mirror c d"
    and hl: "\<forall>k m. length (hmacSign env k m) = HMAC_SHA256_SIZE"
    and lo: "(if macEtm c then 32 else 40) \<le> i"
    and hi: "i < 8 * length (ciphertext (fst (encrypt env rnd c p)))"
    and nc: "i < 8 * (length (ciphertext (fst (encrypt env rnd c p))) - HMAC_SHA256_SIZE) \<longrightarrow>
             expectedMac env d (flipBit (ciphertext (fst (encrypt env rnd c p))) i)
               \<noteq> expectedMac env d (ciphertext (fst (encrypt env rnd c p)))"
  shows "decrypt env d (flipBit (ciphertext (fst (encrypt env rnd c p))) i)
           = (Inl (MacVerificationError
                (if macEtm c then ''MAC verification failed (EtM mode)''
                 else ''MAC verification failed'')), d)"
proof (cases "macEtm c")
  case False
  have m: "\<not> macEtm d" "keyEnc c = keyDec d" "ivEnc c = ivDec d" "macC c = macS d"
    "seqOut c = seqIn d"
    using False mir by (simp_all add: mirror_def)
  define raw where "raw = buildPacket rnd p False"
  define E where "E = fst (encryptAES128CTR env (keyDec d) (ivDec d) raw)"
  define mac where "mac = computeHMACSHA256 env (macS d) (writeUint32 (seqIn d) @ raw)"
  have fit': "1 + length p + calculatePadding (length p) False \<le> MAX_PACKET_SIZE"
    using fit False by simp
  note b = buildPacket_fields [OF fit', of rnd, folded raw_def]
  have g: "16 \<le> length raw" unfolding raw_def by (rule buildPacket_mte_ge16)
  have out: "ciphertext (fst (encrypt env rnd c p)) = E @ mac"
    using False by (simp add: encrypt_mte E_def mac_def raw_def m)
  have lm: "length mac = HMAC_SHA256_SIZE" using hl by (simp add: mac_def computeHMACSHA256_def)
  have lE: "length E = length raw" by (simp add: E_def)
  have e0: "expectedMac env d (E @ mac) = mac"
    unfolding E_def mac_def by (rule mte_expectedMac [OF m(1) g b(2)])
  have "decrypt env d (flipBit (E @ mac) i)
          = (Inl (MacVerificationError ''MAC verification failed''), d)"
  proof (cases "i < 8 * length E")
    case True
    define raw' where "raw' = flipBit raw i"
    have i40: "40 \<le> i" using lo False by simp
    have fE: "flipBit E i = fst (encryptAES128CTR env (keyDec d) (ivDec d) raw')"
      by (simp add: E_def raw'_def encryptAES128CTR_def ctrLoop_flip)
    have f: "flipBit (E @ mac) i = fst (encryptAES128CTR env (keyDec d) (ivDec d) raw') @ mac"
      unfolding fE [symmetric] by (rule flipBit_append_left [OF True])
    have t4: "take 4 raw' = take 4 raw"
      unfolding raw'_def using i40 by (intro flipBit_take) simp
    have n4: "raw' ! 4 = raw ! 4"
      unfolding raw'_def using i40 by (intro flipBit_nth) auto
    have l': "length raw' = length raw" by (simp add: raw'_def)
    have r: "16 \<le> length raw'" "length raw' = 4 + getUint32 (take 4 raw')"
      using g b(2) by (simp_all add: l' t4)
    have e1: "expectedMac env d (flipBit (E @ mac) i)
                = computeHMACSHA256 env (macS d) (writeUint32 (seqIn d) @ raw')"
      unfolding f by (rule mte_expectedMac [OF m(1) r])
    have ne: "mac \<noteq> computeHMACSHA256 env (macS d) (writeUint32 (seqIn d) @ raw')"
      using nc True by (simp add: out lm e0 e1)
    show ?thesis
      unfolding f
      by (rule mte_mismatch [OF m(1) r _ _ _ _ lm ne]) (use b in \<open>simp_all add: t4 n4\<close>)
  next
    case False
    then have i1: "8 * length E \<le> i" by simp
    have i2: "i - 8 * length E < 8 * length mac" using hi i1 by (simp add: out)
    have fl: "flipBit (E @ mac) i = E @ flipBit mac (i - 8 * length E)"
      by (rule flipBit_append_right [OF i1])
    have ne: "flipBit mac (i - 8 * length E) \<noteq> mac" by (rule flipBit_neq [OF i2])
    show ?thesis
      unfolding fl unfolding E_def
      by (rule mte_mismatch [OF m(1) g b(2,3,4,5,6)]) (use lm ne in \<open>simp_all add: mac_def lE\<close>)
  qed
  then show ?thesis using False by (simp add: out)
next
  case True
  have m: "macEtm d" "keyEnc c = keyDec d" "ivEnc c = ivDec d" "macC c = macS d"
    "seqOut c = seqIn d"
    using True mir by (simp_all add: mirror_def)
  define raw where "raw = buildPacket rnd p True"
  define hdr where "hdr = take 4 raw"
  define ct where "ct = fst (encryptAES128CTR env (keyDec d) (ivDec d) (drop 4 raw))"
  define mac where "mac = computeHMACSHA256 env (macS d) (writeUint32 (seqIn d) @ hdr @ ct)"
  have fit': "1 + length p + calculatePadding (length p) True \<le> MAX_PACKET_SIZE"
    using fit True by simp
  note b = buildPacket_fields [OF fit', of rnd, folded raw_def, folded hdr_def]
  have out: "ciphertext (fst (encrypt env rnd c p)) = hdr @ ct @ mac"
    using True by (simp add: encrypt_etm hdr_def ct_def mac_def raw_def m)
  have lm: "length mac = HMAC_SHA256_SIZE" using hl by (simp add: mac_def computeHMACSHA256_def)
  have lh: "length hdr = 4" using b(2) by (simp add: hdr_def)
  have lc: "length ct = getUint32 hdr" using b(2) by (simp add: ct_def)
  have i32: "8 * length hdr \<le> i" using lo True by (simp add: lh)
  have f0: "flipBit (hdr @ ct @ mac) i = hdr @ flipBit (ct @ mac) (i - 32)"
    using flipBit_append_right [OF i32] by (simp add: lh)
  have e0: "expectedMac env d (hdr @ ct @ mac) = mac"
    unfolding mac_def by (rule etm_fields(3) [OF m(1) lh lc lm [unfolded mac_def]])
  have "decrypt env d (flipBit (hdr @ ct @ mac) i)
          = (Inl (MacVerificationError ''MAC verification failed (EtM mode)''), d)"
  proof (cases "i - 32 < 8 * length ct")
    case True
    define ct' where "ct' = flipBit ct (i - 32)"
    have f: "flipBit (hdr @ ct @ mac) i = hdr @ ct' @ mac"
      unfolding f0 ct'_def by (simp only: flipBit_append_left [OF True])
    have lc': "length ct' = getUint32 hdr" by (simp add: ct'_def lc)
    have e1: "expectedMac env d (flipBit (hdr @ ct @ mac) i)
                = computeHMACSHA256 env (macS d) (writeUint32 (seqIn d) @ hdr @ ct')"
      unfolding f by (rule etm_fields(3) [OF m(1) lh lc' lm])
    have "i < 8 * (length (hdr @ ct @ mac) - HMAC_SHA256_SIZE)"
      using True by (simp add: lh lm)
    then have ne: "mac \<noteq> computeHMACSHA256 env (macS d) (writeUint32 (seqIn d) @ hdr @ ct')"
      using nc by (simp add: out e0 e1)
    show ?thesis
      unfolding f by (rule etm_mismatch [OF m(1) lh lc' lm b(3,4) ne])
  next
    case False
    then have i1: "8 * length ct \<le> i - 32" by simp
    have i2: "i - 32 - 8 * length ct < 8 * length mac"
      using hi i1 i32 by (simp add: out lh)
    have fl: "flipBit (hdr @ ct @ mac) i = hdr @ ct @ flipBit mac (i - 32 - 8 * length ct)"
      unfolding f0 by (simp only: flipBit_append_right [OF i1])
    have ne: "flipBit mac (i - 32 - 8 * length ct) \<noteq> mac" by (rule flipBit_neq [OF i2])
    show ?thesis
      unfolding fl
      by (rule etm_mismatch [OF m(1) lh lc _ b(3,4)]) (use lm ne in \<open>simp_all add: mac_def\<close>)
  qed
  then show ?thesis using True by (simp add: out)
qed

theorem mac_tamper_detected_witness:
  "decrypt exampleCrypto (exampleCipher False) (flipBit examplePacket 376)
     = (Inl (MacVerificationError ''MAC verification failed''), exampleCipher False)
   \<and> decrypt exampleCrypto (exampleCipher False) (flipBit examplePacket 47)
     = (Inl (MacVerificationError ''MAC verification failed''), exampleCipher False)
   \<and> decrypt exampleCrypto (exampleCipher True) (flipBit exampleEtmPacket 40)
     = (Inl (MacVerificationError ''MAC verification failed (EtM mode)''), exampleCipher True)"
proof -
  have fit: "1 + length [21 :: byte] + calculatePadding (length [21 :: byte]) (macEtm (exampleCipher etm))
               \<le> MAX_PACKET_SIZE" for etm
    by (simp add: calculatePadding_def constant_defs)
  have hl: "\<forall>k m. length (hmacSign exampleCrypto k m) = HMAC_SHA256_SIZE"
    by (simp add: exampleCrypto_def HMAC_SHA256_SIZE_def)
  have m: "\<not> macEtm (exampleCipher False)" "macEtm (exampleCipher True)"
    by (simp_all add: example_defs)
  have l: "length examplePacket = 48" by (simp add: examplePacket_def)
  have l2: "length exampleEtmPacket = 52" by (simp add: exampleEtmPacket_def)
  have a: "decrypt exampleCrypto (exampleCipher False)
             (flipBit (ciphertext (fst (encrypt exampleCrypto (\<lambda>i. 9) (exampleCipher False) [21]))) 376)
           = (Inl (MacVerificationError
                (if macEtm (exampleCipher False) then ''MAC verification failed (EtM mode)''
                 else ''MAC verification failed'')), exampleCipher False)"
    by (rule mac_tamper_detected [OF fit example_mirror hl])
       (simp_all add: example_encrypt l HMAC_SHA256_SIZE_def m)
  have b: "decrypt exampleCrypto (exampleCipher False)
             (flipBit (ciphertext (fst (encrypt exampleCrypto (\<lambda>i. 9) (exampleCipher False) [21]))) 47)
           = (Inl (MacVerificationError
                (if macEtm (exampleCipher False) then ''MAC verification failed (EtM mode)''
                 else ''MAC verification failed'')), exampleCipher False)"
    by (rule mac_tamper_detected [OF fit example_mirror hl])
       (simp_all add: example_encrypt l HMAC_SHA256_SIZE_def w_mte_body m)
  have c: "decrypt exampleCrypto (exampleCipher True)
             (flipBit (ciphertext (fst (encrypt exampleCrypto (\<lambda>i. 9) (exampleCipher True) [21]))) 40)
           = (Inl (MacVerificationError
                (if macEtm (exampleCipher True) then ''MAC verification failed (EtM mode)''
                 else ''MAC verification failed'')), exampleCipher True)"
    by (rule mac_tamper_detected [OF fit example_mirror hl])
       (simp_all add: example_encrypt_etm l2 HMAC_SHA256_SIZE_def w_etm_body m)
  show ?thesis using a b c m by (simp add: example_encrypt example_encrypt_etm)
qed


section \<open>Claims about the connection orchestrator\<close>

subsection \<open>The KEXINIT guard\<close>

lemmas constant_msg_defs = SSH_MSG_KEXINIT_def SSH_MSG_NEWKEYS_def SSH_MSG_KEXDH_INIT_def
  SSH_MSG_KEX_ECDH_INIT_def SSH_MSG_KEXDH_REPLY_def SSH_MSG_KEX_ECDH_REPLY_def
  SSH_MSG_SERVICE_REQUEST_def SSH_MSG_SERVICE_ACCEPT_def SSH_MSG_EXT_INFO_def
  SSH_MSG_USERAUTH_REQUEST_def SSH_MSG_USERAUTH_FAILURE_def SSH_MSG_USERAUTH_SUCCESS_def
  SSH_MSG_USERAUTH_PK_OK_def SSH_MSG_GLOBAL_REQUEST_def SSH_MSG_REQUEST_SUCCESS_def
  SSH_MSG_REQUEST_FAILURE_def SSH_MSG_CHANNEL_OPEN_def SSH_MSG_CHANNEL_OPEN_CONFIRMATION_def
  SSH_MSG_CHANNEL_WINDOW_ADJUST_def SSH_MSG_CHANNEL_DATA_def SSH_MSG_CHANNEL_EXTENDED_DATA_def
  SSH_MSG_CHANNEL_REQUEST_def SSH_MSG_CHANNEL_SUCCESS_def SSH_MSG_CHANNEL_FAILURE_def

lemma kexInitS_setFatal [simp]: "kexInitS (setFatal cfg s msg) = kexInitS s"
  by (simp add: setFatal_def)

lemma kexInitS_send [simp]: "kexInitS (send s d) = kexInitS s"
  by (simp add: send_def)

lemma kexInitS_dropRandom [simp]: "kexInitS (dropRandom n s) = kexInitS s"
  by (simp add: dropRandom_def)

lemma kexInitS_sendPacket [simp]: "kexInitS (sendPacket s pl) = kexInitS s"
  by (simp add: sendPacket_def)

lemma kexInitS_sendEncrypted [simp]: "kexInitS (sendEncrypted env s pl) = kexInitS s"
  by (simp add: sendEncrypted_def Let_def split: option.splits)

lemma kexInitS_flushBuf [simp]: "kexInitS (flushBuf s) = kexInitS s"
  by (simp add: flushBuf_def)

lemma kexInitS_installKeys [simp]:
  "kexInitS (installKeys env s h k) = kexInitS s"
  by (simp add: installKeys_def Let_def)

lemma kexInitS_handleKexDhReply [simp]:
  "kexInitS (handleKexDhReply env cfg s p) = kexInitS s"
  by (simp add: handleKexDhReply_def Let_def split: option.splits prod.splits)

lemma kexInitS_handleKexEcdhReply [simp]:
  "kexInitS (handleKexEcdhReply env cfg s p) = kexInitS s"
  by (simp add: handleKexEcdhReply_def Let_def split: option.splits prod.splits)

lemma kexInitS_sendAuthRequest [simp]:
  "kexInitS (fst (sendAuthRequest env cfg s)) = kexInitS s"
  by (simp add: sendAuthRequest_def Let_def resolved_def rejected_def split: option.splits)

lemma kexInitS_handleChannelOpenConfirmation [simp]:
  "kexInitS (fst (handleChannelOpenConfirmation env cfg s p r)) = kexInitS s"
  by (simp add: handleChannelOpenConfirmation_def Let_def resolved_def rejected_def)

lemma kexInitS_handleChannelReply [simp]:
  "kexInitS (handleChannelReply env cfg s m) = kexInitS s"
  by (simp add: handleChannelReply_def Let_def)

lemma kexInitS_handleChannelData [simp]:
  "kexInitS (handleChannelData env s p off) = kexInitS s"
  by (simp add: handleChannelData_def Let_def split: option.splits prod.splits)

lemma kexInitS_handleDisconnect [simp]:
  "kexInitS (handleDisconnect cfg s p) = kexInitS s"
  by (simp add: handleDisconnect_def Let_def)

lemma kexInitS_handleGlobalRequest [simp]:
  "kexInitS (handleGlobalRequest env s p) = kexInitS s"
  by (simp add: handleGlobalRequest_def Let_def split: option.splits prod.splits)

lemma kexInitS_handleNewKeys [simp]:
  "kexInitS (handleNewKeys env s) = kexInitS s"
  by (simp add: handleNewKeys_def)

lemma kexInitS_handleUserauthFailure [simp]:
  "kexInitS (handleUserauthFailure cfg s p) = kexInitS s"
  by (simp add: handleUserauthFailure_def Let_def)

lemma kexInitS_handleUserauthSuccess [simp]:
  "kexInitS (handleUserauthSuccess env s) = kexInitS s"
  by (simp add: handleUserauthSuccess_def)

lemma kexInitS_processPayload:
  "kexInitS s \<noteq> None \<Longrightarrow> kexInitS (fst (processPayload env cfg s p r)) = kexInitS s"
proof (cases p)
  case Nil
  then show ?thesis by (simp add: processPayload_def resolved_def)
next
  case (Cons b0 p')
  assume "kexInitS s \<noteq> None"
  then obtain y where y: "kexInitS s = Some y" by auto
  show ?thesis
    unfolding processPayload_def Let_def resolved_def Cons list.case by (simp add: y)
qed

lemma kexInitS_startKex [simp]:
  "kexInitS (startKex env cfg s l) = kexInitS s"
  by (simp add: startKex_def Let_def)

lemma kexInitS_handleKexInit:
  "kexInitS (handleKexInit env cfg s p) = Some p"
  by (simp add: handleKexInit_def Let_def split: option.splits prod.splits)

text \<open>
  Claim C10. The dispatcher acts on a server KEXINIT at most once. A KEXINIT that
  arrives while no server KEXINIT is saved is saved as \<open>kexInitS\<close>; no message ever
  clears a saved \<open>kexInitS\<close>; and a KEXINIT that arrives while one is saved resolves
  with the whole orchestrator state as it was: the negotiated algorithms, both saved
  KEXINIT payloads, the ephemeral keys and the cipher are unchanged and nothing is sent.
\<close>

theorem kexinit_processed_once:
  "p \<noteq> [] \<and> unat (hd p) = SSH_MSG_KEXINIT \<Longrightarrow>
     (kexInitS s = None \<longrightarrow> kexInitS (fst (processPayload env cfg s p rest)) = Some p)
     \<and> (kexInitS s \<noteq> None \<longrightarrow>
          processPayload env cfg s p rest = (s, None)
          \<and> kexInitS (fst (processPayload env cfg s q rest2)) = kexInitS s)"
proof -
  assume a: "p \<noteq> [] \<and> unat (hd p) = SSH_MSG_KEXINIT"
  then obtain b0 p' where p: "p = b0 # p'" and b: "unat b0 = 20"
    by (cases p) (auto simp add: SSH_MSG_KEXINIT_def)
  have 1: "kexInitS s = None \<longrightarrow> kexInitS (fst (processPayload env cfg s p rest)) = Some p"
    unfolding processPayload_def Let_def resolved_def p list.case
    by (simp add: b SSH_MSG_EXT_INFO_def SSH_MSG_GLOBAL_REQUEST_def SSH_MSG_KEXINIT_def
        kexInitS_handleKexInit)
  have 2: "kexInitS s \<noteq> None \<longrightarrow> processPayload env cfg s p rest = (s, None)"
    unfolding processPayload_def Let_def resolved_def p list.case
    by (simp add: b constant_msg_defs)
  from 1 2 kexInitS_processPayload [of s env cfg q rest2] show ?thesis by blast
qed

theorem kexinit_processed_once_witness:
  "processPayload exampleCrypto exampleConfig (exampleOrchestrator\<lparr>kexInitS := Some [20, 1]\<rparr>)
     [20, 2] [] = (exampleOrchestrator\<lparr>kexInitS := Some [20, 1]\<rparr>, None)
   \<and> kexInitS (fst (processPayload exampleCrypto exampleConfig exampleOrchestrator [20, 2] []))
       = Some [20, 2]"
  using kexinit_processed_once [of "[20, 2]" "exampleOrchestrator\<lparr>kexInitS := Some [20, 1]\<rparr>"
      exampleCrypto exampleConfig "[]" "[]" "[]"]
    kexinit_processed_once [of "[20, 2]" exampleOrchestrator exampleCrypto exampleConfig "[]" "[]" "[]"]
  by (simp add: SSH_MSG_KEXINIT_def exampleOrchestrator_def newOrchestrator_def)

subsection \<open>The fatal-error trap\<close>





subsection \<open>Sequence numbers after the key exchange\<close>

lemma cipher_sendPacket [simp]:
  "cipher (connState (sendPacket s pl)) = cipher (connState s)"
  by (simp add: sendPacket_def send_def dropRandom_def)






subsection \<open>The version line\<close>

lemma example_stream_bytes:
  "exampleIdentStream = [103, 97, 114, 98, 97, 103, 101, 45, 98, 101, 102, 111, 114, 101, 45,
      83, 83, 72, 45, 50, 46, 48, 45, 115, 101, 114, 118, 101, 114, 13, 10, 77, 79, 82, 69]"
  by (simp add: exampleIdentStream_def exampleIdentChunk1_def exampleIdentChunk2_def textEncode_def)

text \<open>
  The version-line scan on every prefix of the stream: up to 30 bytes it finds no complete
  version line and keeps the bytes; from 31 bytes on it finds the version and gives back
  what follows the line feed.
\<close>

lemma scan_short:
  "\<forall>k \<in> set [0, 1, 2, 3, 4, 5, 6, 7, 8, 9, 10, 11, 12, 13, 14, 15, 16, 17, 18, 19, 20, 21, 22, 23, 24, 25, 26, 27, 28, 29, 30 :: nat]. \<forall>s d. identBuf s @ d = take k exampleIdentStream \<longrightarrow>
       extractServerIdent s d = (s\<lparr>identBuf := take k exampleIdentStream\<rparr>, None)"
  by (simp add: example_stream_bytes extractServerIdent_def findIndex_def Let_def)

lemma scan_long:
  "\<forall>k \<in> set [31, 32, 33, 34, 35 :: nat]. \<forall>s d. identBuf s @ d = take k exampleIdentStream \<longrightarrow>
       extractServerIdent s d =
         (s\<lparr>connState := (connState s)\<lparr>serverIdent := ''SSH-2.0-server''\<rparr>, identBuf := []\<rparr>,
          Some (drop 31 (take k exampleIdentStream)))"
  by (simp add: example_stream_bytes extractServerIdent_def findIndex_def Let_def subarray_def
      textDecode_def char_of_def bit_0)

lemma scan_prefix:
  assumes "identBuf s @ d = take k exampleIdentStream" "k \<le> 35"
  shows "extractServerIdent s d =
           (if k < 31 then (s\<lparr>identBuf := take k exampleIdentStream\<rparr>, None)
            else (s\<lparr>connState := (connState s)\<lparr>serverIdent := ''SSH-2.0-server''\<rparr>,
                    identBuf := []\<rparr>,
                  Some (drop 31 (take k exampleIdentStream))))"
proof (cases "k < 31")
  case True
  then have m: "k \<in> set [0, 1, 2, 3, 4, 5, 6, 7, 8, 9, 10, 11, 12, 13, 14, 15, 16, 17, 18, 19, 20, 21, 22, 23, 24, 25, 26, 27, 28, 29, 30 :: nat]" by (simp; arith)
  from bspec [OF scan_short m] assms(1)
  have "extractServerIdent s d = (s\<lparr>identBuf := take k exampleIdentStream\<rparr>, None)" by blast
  then show ?thesis using True by simp
next
  case False
  then have m: "k \<in> set [31, 32, 33, 34, 35 :: nat]" using assms(2) by (simp; arith)
  from bspec [OF scan_long m] assms(1)
  have "extractServerIdent s d =
          (s\<lparr>connState := (connState s)\<lparr>serverIdent := ''SSH-2.0-server''\<rparr>, identBuf := []\<rparr>,
           Some (drop 31 (take k exampleIdentStream)))" by blast
  then show ?thesis using False by simp
qed

lemma feed_after:
  "serverIdent (connState s) \<noteq> [] \<Longrightarrow> feedChunks s cs = (s, concat cs)"
  by (induction cs) (simp_all add: identStage_def)

lemma feed_before:
  assumes "serverIdent (connState s) = []" "identBuf s @ concat cs = exampleIdentStream"
    "length (identBuf s) < 31"
  shows "serverIdent (connState (fst (feedChunks s cs))) = ''SSH-2.0-server''
         \<and> identBuf (fst (feedChunks s cs)) = []
         \<and> snd (feedChunks s cs) = textEncode ''MORE''"
  using assms
proof (induction cs arbitrary: s)
  case Nil
  then have "length exampleIdentStream < 31" by simp
  then show ?case by (simp add: example_stream_bytes)
next
  case (Cons d ds)
  define X where "X = identBuf s @ d"
  define k where "k = length X"
  have st: "X @ concat ds = exampleIdentStream" using Cons.prems(2) by (simp add: X_def)
  have l: "length exampleIdentStream = 35" by (simp add: example_stream_bytes)
  have X: "X = take k exampleIdentStream" unfolding st [symmetric] k_def by simp
  have k: "k \<le> 35" using arg_cong [OF st, of length] by (simp add: k_def l)
  have i: "identStage s d = extractServerIdent s d"
    using Cons.prems(1) by (simp add: identStage_def)
  note sc = scan_prefix [of s d k, OF X [unfolded X_def] k]
  show ?case
  proof (cases "k < 31")
    case True
    have f: "feedChunks s (d # ds) = feedChunks (s\<lparr>identBuf := X\<rparr>) ds"
      using True by (simp add: i sc X [symmetric])
    show ?thesis
      unfolding f
      by (rule Cons.IH) (use Cons.prems(1) st True in \<open>simp_all add: k_def\<close>)
  next
    case False
    define s1 where "s1 = s\<lparr>connState := (connState s)\<lparr>serverIdent := ''SSH-2.0-server''\<rparr>,
                               identBuf := []\<rparr>"
    have n: "serverIdent (connState s1) \<noteq> []" by (simp add: s1_def)
    have f: "feedChunks s (d # ds) = (s1, drop 31 X @ concat ds)"
      using False by (simp add: i sc X [symmetric] s1_def [symmetric] feed_after [OF n])
    have "drop 31 X @ concat ds = drop 31 (X @ concat ds)"
      using False by (simp add: k_def)
    also have "\<dots> = textEncode ''MORE''"
      by (simp add: st) (simp add: example_stream_bytes textEncode_def)
    finally have r: "drop 31 X @ concat ds = textEncode ''MORE''" .
    show ?thesis unfolding f by (simp add: r s1_def)
  qed
qed

text \<open>
  Claim C8. Whatever chunks the byte stream \<open>"garbage-before-"\<close>,
  \<open>"SSH-2.0-server\r\nMORE"\<close> arrives in (the two chunks as they are, or the same
  bytes split anywhere else, empty chunks included), once all of it has gone through the
  version-line stage of an orchestrator that did not know the version, the recorded
  server version is exactly \<open>"SSH-2.0-server"\<close>, without the terminator, the pre-ident
  buffer is empty, and the bytes passed on as protocol data are exactly \<open>"MORE"\<close>.
\<close>

theorem version_line_extraction:
  "serverIdent (connState s) = [] \<and> identBuf s = []
     \<and> concat chunks = exampleIdentChunk1 @ exampleIdentChunk2 \<Longrightarrow>
   serverIdent (connState (fst (feedChunks s chunks))) = ''SSH-2.0-server''
   \<and> identBuf (fst (feedChunks s chunks)) = []
   \<and> snd (feedChunks s chunks) = textEncode ''MORE''"
  using feed_before [of s chunks] by (simp add: exampleIdentStream_def)

theorem version_line_extraction_witness:
  "serverIdent (connState (fst (feedChunks exampleOrchestrator
      [exampleIdentChunk1, exampleIdentChunk2]))) = ''SSH-2.0-server''
   \<and> snd (feedChunks exampleOrchestrator [exampleIdentChunk1, exampleIdentChunk2])
       = textEncode ''MORE''
   \<and> serverIdent (connState (fst (feedChunks exampleOrchestrator
      [take 10 exampleIdentChunk1, [], drop 10 exampleIdentChunk1 @ take 15 exampleIdentChunk2,
       drop 15 exampleIdentChunk2]))) = ''SSH-2.0-server''
   \<and> snd (feedChunks exampleOrchestrator
      [take 10 exampleIdentChunk1, [], drop 10 exampleIdentChunk1 @ take 15 exampleIdentChunk2,
       drop 15 exampleIdentChunk2]) = textEncode ''MORE''"
proof -
  have a: "serverIdent (connState exampleOrchestrator) = []" "identBuf exampleOrchestrator = []"
    by (simp_all add: exampleOrchestrator_def newOrchestrator_def createConnectionState_def)
  have c: "concat [take 10 exampleIdentChunk1, [],
             drop 10 exampleIdentChunk1 @ take 15 exampleIdentChunk2, drop 15 exampleIdentChunk2]
           = exampleIdentChunk1 @ exampleIdentChunk2"
    by simp
  have c0: "concat [exampleIdentChunk1, exampleIdentChunk2]
           = exampleIdentChunk1 @ exampleIdentChunk2"
    by simp
  note w1 = version_line_extraction [of exampleOrchestrator
      "[exampleIdentChunk1, exampleIdentChunk2]", OF conjI [OF a(1) conjI [OF a(2) c0]]]
  note w2 = version_line_extraction [of exampleOrchestrator
      "[take 10 exampleIdentChunk1, [], drop 10 exampleIdentChunk1 @ take 15 exampleIdentChunk2,
        drop 15 exampleIdentChunk2]", OF conjI [OF a(1) conjI [OF a(2) c]]]
  show ?thesis using w1 w2 by blast
qed

end
